theory Spec2Isabelle
  imports Main "HOL-Library.Word"
begin

section \<open>The off-screen renderer of three/core/renderer/renderer.cpp\<close>

text \<open>
  The renderer is glue around GLFW and OpenGL. The embedding keeps the two sides apart:
  the fields of the C++ class are a record, and everything outside the object (the
  GLFW library, the GL context, the host's Scene objects) is a second record, the
  world, that every operation takes and returns. Each call into GLFW, GL or the
  helper classes is appended to the world's log with its arguments, in program order,
  and updates the few registers of the world that the claims talk about.
\<close>

subsection \<open>Values\<close>

text \<open>
  A GLfloat is kept as its IEEE-754 binary32 bit pattern: the renderer never computes
  with floats, it stores two literals (0.0 and 1.0) and copies values. GLubyte is an
  unsigned 8-bit and GLuint an unsigned 32-bit integer. A C++ \<open>int\<close> is an \<open>int\<close>
  here, and the places where the result of signed arithmetic could leave the 32-bit
  range check for it: C++ leaves such an execution undefined.
\<close>

type_synonym GLfloat = "32 word"
type_synonym GLubyte = "8 word"
type_synonym GLuint = "32 word"
type_synonym mat4 = "GLfloat list"

definition float_0_0 :: GLfloat where
  "float_0_0 = 0"

definition float_1_0 :: GLfloat where
  "float_1_0 = 0x3F800000"

definition INT_MAX :: int where
  "INT_MAX = 2147483647"

definition INT_MIN :: int where
  "INT_MIN = - 2147483648"

datatype failure =
    runtime_error string
  | bad_array_new_length
  | bad_alloc
  | domain_error string
  | undefined_behaviour


definition int_mul :: "int \<Rightarrow> int \<Rightarrow> failure + int" where
  "int_mul a b =
     (if INT_MIN \<le> a * b \<and> a * b \<le> INT_MAX then Inr (a * b) else Inl undefined_behaviour)"

subsection \<open>Scene, camera and the helper classes\<close>

text \<open>
  Only the members that renderer.cpp reads are fields. The objects of a scene are held
  through \<open>shared_ptr\<close>; the list holds the pointees, so a null element is outside the
  model, as is a null camera pointer (both are dereferenced unchecked).
\<close>

record Object =
  model_matrix :: mat4
  smoothness :: bool
  num_faces :: int

record Scene =
  objects :: "Object list"

record PerspectiveCamera =
  view_matrix :: mat4
  projection_matrix :: mat4

type_synonym scene_ptr = nat
type_synonym window = nat

datatype program = Depth | Main

text \<open>
  Modelled from the spec: \<open>opengl::VertexArrayObject\<close> (its source is not part of the
  file under study). The spec calls it the geometry binding: \<open>build\<close> uploads the vertex
  data of every object of a scene, one slot per object in list order, and replaces what
  an earlier build left. A slot is identified with the object it was built from.
\<close>

record VertexArrayObject =
  slots :: "Object list"

definition build :: "Scene \<Rightarrow> VertexArrayObject \<Rightarrow> VertexArrayObject" where
  "build sc v = v\<lparr>slots := objects sc\<rparr>"

subsection \<open>Calls into GLFW, GL and the helper classes\<close>

datatype GLenum =
    GLFW_CONTEXT_VERSION_MAJOR | GLFW_CONTEXT_VERSION_MINOR
  | GLFW_OPENGL_PROFILE | GLFW_OPENGL_CORE_PROFILE
  | GLFW_VISIBLE | GLFW_OPENGL_FORWARD_COMPAT | GL_FALSE | GL_TRUE
  | GL_COLOR_BUFFER_BIT | GL_DEPTH_BUFFER_BIT
  | GL_TRIANGLES
  | GL_BLEND | GL_CULL_FACE | GL_DEPTH_TEST
  | GL_SRC_ALPHA | GL_ONE_MINUS_SRC_ALPHA
  | GL_PACK_ALIGNMENT
  | GL_RENDERBUFFER | GL_FRAMEBUFFER | GL_DEPTH_ATTACHMENT | GL_COLOR_ATTACHMENT0
  | GL_DEPTH_COMPONENT | GL_RGB | GL_FLOAT | GL_UNSIGNED_BYTE

datatype hint_value = Num int | Const GLenum

datatype api_call =
    glfwSetErrorCallback
  | glfwInit bool
  | new_GLfloat_array int
  | new_GLubyte_array int
  | glfwWindowHint GLenum hint_value
  | glfwCreateWindow int int string window
  | glfwMakeContextCurrent window
  | gl3wInit
  | new_VertexArrayObject
  | new_program program
  | glGenRenderbuffers int GLuint
  | glfwDestroyWindow window
  | glfwTerminate
  | vao_build scene_ptr
  | vao_bind_object int
  | glViewport int int int int
  | glClear "GLenum list"
  | glClearColor GLfloat GLfloat GLfloat GLfloat
  | uniform_matrix program nat mat4
  | uniform_float program nat GLfloat
  | glDrawArrays GLenum int int
  | glfwWindowShouldClose window
  | program_use program
  | glEnable GLenum
  | glBlendFunc GLenum GLenum
  | glPixelStorei GLenum int
  | glBindRenderbuffer GLenum GLuint
  | glFramebufferRenderbuffer GLenum GLenum GLenum GLuint
  | glReadPixels int int int int GLenum GLenum
  | glUseProgram GLuint
  | glBindVertexArray GLuint

subsection \<open>The world outside the Renderer object\<close>

text \<open>
  A plane of the draw framebuffer either holds one value at every pixel (after a clear)
  or whatever rasterisation left there, which the model does not compute.
\<close>

datatype 'v plane = Uniform 'v | Rasterized

type_synonym rgba = "GLfloat \<times> GLfloat \<times> GLfloat \<times> GLfloat"

record world =
  calls :: "api_call list"
  glfw_up :: bool
  live :: "window set"
  closing :: "window set"
  scenes :: "scene_ptr \<rightharpoonup> Scene"
  clear_color :: rgba
  clear_depth :: GLfloat
  viewport :: "int \<times> int \<times> int \<times> int"
  color_plane :: "rgba plane"
  depth_plane :: "GLfloat plane"
  program_in_use :: "program option"

text \<open>
  What a call does to the registers, after the GLFW and OpenGL references. The last
  argument of \<open>glfwInit\<close>, \<open>glfwCreateWindow\<close> and \<open>glGenRenderbuffers\<close> is what
  the library returned. \<open>glfwCreateWindow\<close> creates the context, whose clear colour
  starts as (0,0,0,0) and whose clear depth starts as 1; \<open>glClear\<close> fills the planes it
  names with the clear values current at that moment (the renderer never touches the
  scissor box or the write masks); \<open>glClearColor\<close> only sets the register; a draw call
  leaves the planes to the rasteriser.
\<close>

fun effect :: "api_call \<Rightarrow> world \<Rightarrow> world" where
  "effect (glfwInit ok) w = w\<lparr>glfw_up := ok\<rparr>"
| "effect (glfwCreateWindow wd ht title h) w =
     w\<lparr>live := insert h (live w),
       clear_color := (float_0_0, float_0_0, float_0_0, float_0_0),
       clear_depth := float_1_0,
       viewport := (0, 0, wd, ht),
       color_plane := Rasterized, depth_plane := Rasterized,
       program_in_use := None\<rparr>"
| "effect (glfwDestroyWindow h) w = w\<lparr>live := live w - {h}, closing := closing w - {h}\<rparr>"
| "effect glfwTerminate w = w\<lparr>glfw_up := False, live := {}, closing := {}\<rparr>"
| "effect (glViewport x y wd ht) w = w\<lparr>viewport := (x, y, wd, ht)\<rparr>"
| "effect (glClear bits) w =
     w\<lparr>color_plane :=
         (if GL_COLOR_BUFFER_BIT \<in> set bits then Uniform (clear_color w) else color_plane w),
       depth_plane :=
         (if GL_DEPTH_BUFFER_BIT \<in> set bits then Uniform (clear_depth w) else depth_plane w)\<rparr>"
| "effect (glClearColor r g b a) w = w\<lparr>clear_color := (r, g, b, a)\<rparr>"
| "effect (glDrawArrays mode first n) w =
     w\<lparr>color_plane := Rasterized, depth_plane := Rasterized\<rparr>"
| "effect (program_use p) w = w\<lparr>program_in_use := Some p\<rparr>"
| "effect (glUseProgram n) w = (if n = 0 then w\<lparr>program_in_use := None\<rparr> else w)"
| "effect c w = w"

definition call :: "api_call \<Rightarrow> world \<Rightarrow> world" where
  "call c w = (effect c w)\<lparr>calls := calls w @ [c]\<rparr>"

definition issue :: "api_call list \<Rightarrow> world \<Rightarrow> world" where
  "issue cs w = fold call cs w"

text \<open>
  Modelled from the spec: \<open>VertexArrayObject::bind_object\<close> binds the slot with the
  given index; the spec leaves an index outside the slots undefined.
\<close>

definition bind_object :: "VertexArrayObject \<Rightarrow> int \<Rightarrow> world \<Rightarrow> failure + world" where
  "bind_object v i w =
     (if 0 \<le> i \<and> i < int (length (slots v)) then Inr (call (vao_bind_object i) w)
      else Inl undefined_behaviour)"

subsection \<open>The Renderer object\<close>

text \<open>
  The fields of the class, without the leading underscore. \<open>scene\<close> is \<open>None\<close> until
  \<open>set_scene\<close> assigns it: the two-argument constructor leaves the pointer unset, and
  reading it then is undefined. The two programs are owned objects of the classes
  \<open>multipass::Depth\<close> and \<open>multipass::Main\<close>; the field holds which class it is.
\<close>

record Renderer =
  width :: int
  height :: int
  depth_buffer :: "GLfloat list"
  color_buffer :: "GLubyte list"
  prev_num_objects :: int
  window :: window
  vao :: VertexArrayObject
  depth_program :: program
  main_program :: program
  render_buffer :: GLuint
  scene :: "scene_ptr option"

text \<open>
  What the platform answers during construction: whether \<open>glfwInit\<close> succeeds,
  whether the allocator finds room for an array of a given number of bytes, the window
  handle, what the constructor of each of the three helper objects throws (their
  source is not part of the file under study; \<open>None\<close> when it returns), the
  renderbuffer name, and whether the build is for Apple.
\<close>

record platform =
  apple :: bool
  glfwInit_result :: bool
  has_room :: "nat \<Rightarrow> bool"
  glfwCreateWindow_result :: window
  new_VertexArrayObject_throws :: "failure option"
  new_Depth_throws :: "failure option"
  new_Main_throws :: "failure option"
  glGenRenderbuffers_result :: GLuint

text \<open>
  \<open>std::make_unique<T[]>(n)\<close> with an \<open>int\<close> argument, for elements of the given size
  in bytes: the count is converted to \<open>size_t\<close>, so a negative one becomes a length
  no array can have and the allocation throws \<open>std::bad_array_new_length\<close>; it throws
  \<open>std::bad_alloc\<close> when the allocator has no room; otherwise the array has \<open>n\<close>
  value-initialised elements.
\<close>

definition make_unique_array :: "(nat \<Rightarrow> bool) \<Rightarrow> nat \<Rightarrow> int \<Rightarrow> failure + ('a::zero) list" where
  "make_unique_array room elem_bytes n =
     (if n < 0 then Inl bad_array_new_length
      else if \<not> room (elem_bytes * nat n) then Inl bad_alloc
      else Inr (replicate (nat n) 0))"

definition window_hints :: "platform \<Rightarrow> api_call list" where
  "window_hints pf =
     [glfwWindowHint GLFW_CONTEXT_VERSION_MAJOR (Num 3),
      glfwWindowHint GLFW_CONTEXT_VERSION_MINOR (Num 2),
      glfwWindowHint GLFW_OPENGL_PROFILE (Const GLFW_OPENGL_CORE_PROFILE),
      glfwWindowHint GLFW_VISIBLE (Const GL_FALSE)]
     @ (if apple pf then [glfwWindowHint GLFW_OPENGL_FORWARD_COMPAT (Const GL_TRUE)] else [])"

text \<open>
  \<open>initialize\<close>. Each allocation is logged when it is asked for. An exception leaves
  the constructor at the point where it is thrown: the result is then the exception
  and the world as it is at that point, and no Renderer.
\<close>

definition initialize ::
  "platform \<Rightarrow> int \<Rightarrow> int \<Rightarrow> world \<Rightarrow> failure \<times> world + Renderer \<times> world" where
  "initialize pf wd ht w =
     (let w1 = issue [glfwSetErrorCallback, glfwInit (glfwInit_result pf)] w in
      if \<not> glfwInit_result pf then Inl (runtime_error ''Failed to initialize GLFW.'', w1)
      else
        case int_mul wd ht of Inl e \<Rightarrow> Inl (e, w1) | Inr n \<Rightarrow>
        let w2 = call (new_GLfloat_array n) w1 in
        case make_unique_array (has_room pf) 4 n of Inl e \<Rightarrow> Inl (e, w2) | Inr depth \<Rightarrow>
        case int_mul n 3 of Inl e \<Rightarrow> Inl (e, w2) | Inr n3 \<Rightarrow>
        let w3 = call (new_GLubyte_array n3) w2 in
        case make_unique_array (has_room pf) 1 n3 of Inl e \<Rightarrow> Inl (e, w3) | Inr color \<Rightarrow>
        let win = glfwCreateWindow_result pf;
            rb = glGenRenderbuffers_result pf;
            w4 = issue (window_hints pf
                   @ [glfwCreateWindow wd ht ''Renderer'' win,
                      glfwMakeContextCurrent win,
                      gl3wInit,
                      new_VertexArrayObject]) w3 in
        case new_VertexArrayObject_throws pf of Some e \<Rightarrow> Inl (e, w4) | None \<Rightarrow>
        let w5 = call (new_program Depth) w4 in
        case new_Depth_throws pf of Some e \<Rightarrow> Inl (e, w5) | None \<Rightarrow>
        let w6 = call (new_program Main) w5 in
        case new_Main_throws pf of Some e \<Rightarrow> Inl (e, w6) | None \<Rightarrow>
          Inr (\<lparr>width = wd, height = ht,
                 depth_buffer = depth, color_buffer = color,
                 prev_num_objects = - 1,
                 window = win,
                 vao = \<lparr>slots = []\<rparr>,
                 depth_program = Depth, main_program = Main,
                 render_buffer = rb,
                 scene = None\<rparr>,
               call (glGenRenderbuffers 1 rb) w6))"

text \<open>
  \<open>set_scene\<close> stores the pointer and hands it to \<open>build\<close>, which reads the scene
  through it: a pointer that leads to no scene (null or dangling) is undefined.
\<close>

definition set_scene :: "scene_ptr \<Rightarrow> Renderer \<Rightarrow> world \<Rightarrow> failure + Renderer \<times> world" where
  "set_scene scene_arg r w =
     (let w1 = call (glfwMakeContextCurrent (window r)) w;
          r1 = r\<lparr>scene := Some scene_arg\<rparr>;
          w2 = call (vao_build scene_arg) w1
      in case scenes w2 scene_arg of
           None \<Rightarrow> Inl undefined_behaviour
         | Some sc \<Rightarrow> Inr (r1\<lparr>vao := build sc (vao r1)\<rparr>, w2))"

text \<open>
  The constructors \<open>Renderer(width, height)\<close> and \<open>Renderer(scene, width, height)\<close>.
  The second is undefined where its \<open>set_scene\<close> is.
\<close>

definition Renderer2 ::
  "platform \<Rightarrow> int \<Rightarrow> int \<Rightarrow> world \<Rightarrow> failure \<times> world + Renderer \<times> world" where
  "Renderer2 pf wd ht w = initialize pf wd ht w"

definition Renderer3 ::
  "platform \<Rightarrow> scene_ptr \<Rightarrow> int \<Rightarrow> int \<Rightarrow> world
     \<Rightarrow> failure \<times> world + Renderer \<times> world" where
  "Renderer3 pf scene_arg wd ht w =
     (case initialize pf wd ht w of
        Inl f \<Rightarrow> Inl f
      | Inr (r, w1) \<Rightarrow>
          (case set_scene scene_arg r w1 of
             Inl e \<Rightarrow> Inl (e, w1)
           | Inr s \<Rightarrow> Inr s))"

text \<open>The destructor: it issues its two calls whatever state the window is in.\<close>

definition destroy :: "Renderer \<Rightarrow> world \<Rightarrow> world" where
  "destroy r w = issue [glfwDestroyWindow (window r), glfwTerminate] w"

subsection \<open>The draw pass\<close>

text \<open>
  The loop of \<open>render_objects\<close>, with \<open>object_index\<close> as its counter. The product
  \<open>3 * _num_faces\<close> and the increment are undefined where they leave the \<open>int\<close> range.
  The function-local static \<open>quadratic_attenuation\<close> is never read and is left out.
\<close>

function render_objects_loop ::
  "Renderer \<Rightarrow> PerspectiveCamera \<Rightarrow> Object list \<Rightarrow> int \<Rightarrow> world \<Rightarrow> failure + world" where
  "render_objects_loop r camera objs object_index w =
     (if object_index < int (length objs) then
        (let object = objs ! nat object_index in
         case bind_object (vao r) object_index w of
           Inl e \<Rightarrow> Inl e
         | Inr w0 \<Rightarrow>
             let w1 = issue
                        [uniform_matrix (main_program r) 0 (model_matrix object),
                         uniform_matrix (main_program r) 1 (view_matrix camera),
                         uniform_matrix (main_program r) 2 (projection_matrix camera)] w0;
                 smoothness_f = (if smoothness object then float_1_0 else float_0_0);
                 w2 = call (uniform_float (main_program r) 3 smoothness_f) w1
             in case int_mul 3 (num_faces object) of
                  Inl e \<Rightarrow> Inl e
                | Inr n \<Rightarrow>
                    let w3 = call (glDrawArrays GL_TRIANGLES 0 n) w2 in
                    if object_index = INT_MAX then Inl undefined_behaviour
                    else render_objects_loop r camera objs (object_index + 1) w3)
      else Inr w)"
  by pat_completeness auto
termination
  by (relation "measure (\<lambda>(r, camera, objs, object_index, w). nat (int (length objs) - object_index))")
     auto

declare render_objects_loop.simps [simp del]

definition render_objects :: "PerspectiveCamera \<Rightarrow> Renderer \<Rightarrow> world \<Rightarrow> failure + world" where
  "render_objects camera r w =
     (let w1 = issue
                 [glfwMakeContextCurrent (window r),
                  glViewport 0 0 (width r) (height r),
                  glClear [GL_COLOR_BUFFER_BIT, GL_DEPTH_BUFFER_BIT],
                  glClearColor float_0_0 float_0_0 float_0_0 float_1_0] w
      in case scene r of
           None \<Rightarrow> Inl undefined_behaviour
         | Some p \<Rightarrow>
             (case scenes w1 p of
                None \<Rightarrow> Inl undefined_behaviour
              | Some sc \<Rightarrow> render_objects_loop r camera (objects sc) 0 w1))"

subsection \<open>The caller's arrays\<close>

text \<open>
  A \<open>py::array_t<T, py::array::c_style>\<close>: a shape and the elements in row-major order.
  \<open>mutable_unchecked<N>()\<close> throws \<open>std::domain_error\<close> when the array does not have
  \<open>N\<close> dimensions; the proxy it returns computes the position of an element from the
  indices without looking at the bounds, so a position past the last element is
  undefined behaviour. Reading the renderer's own buffers through \<open>operator[]\<close> is
  unchecked in the same way.
\<close>

record 'a ndarray =
  shape :: "nat list"
  elems :: "'a list"

definition mutable_unchecked :: "nat \<Rightarrow> 'a ndarray \<Rightarrow> failure + 'a ndarray" where
  "mutable_unchecked n a =
     (if length (shape a) \<noteq> n
      then Inl (domain_error ''array has incorrect number of dimensions'')
      else Inr a)"

definition offset2 :: "'a ndarray \<Rightarrow> int \<Rightarrow> int \<Rightarrow> nat" where
  "offset2 a h w = nat h * (shape a ! 1) + nat w"

definition offset3 :: "'a ndarray \<Rightarrow> int \<Rightarrow> int \<Rightarrow> int \<Rightarrow> nat" where
  "offset3 a h w c = (nat h * (shape a ! 1) + nat w) * (shape a ! 2) + nat c"

definition store :: "'a ndarray \<Rightarrow> nat \<Rightarrow> 'a \<Rightarrow> failure + 'a ndarray" where
  "store a i v =
     (if i < length (elems a) then Inr (a\<lparr>elems := (elems a)[i := v]\<rparr>)
      else Inl undefined_behaviour)"

definition fetch :: "'a list \<Rightarrow> int \<Rightarrow> failure + 'a" where
  "fetch buf i =
     (if 0 \<le> i \<and> i < int (length buf) then Inr (buf ! nat i) else Inl undefined_behaviour)"

text \<open>
  \<open>glReadPixels\<close> writes through the pointer it is given: the values the driver
  delivers replace the front of the buffer, which keeps its length. The driver is
  asked for \<open>_width * _height\<close> pixels, the size the buffer was allocated with.
\<close>

definition overwrite :: "'a list \<Rightarrow> 'a list \<Rightarrow> 'a list" where
  "overwrite buf pixels = take (length buf) pixels @ drop (length pixels) buf"

subsection \<open>The flipping copies\<close>

text \<open>
  \<open>depth_map(h, w) = _depth_buffer[(_height - h - 1) * _width + w]\<close>, then the loops
  over \<open>w\<close> and over \<open>h\<close>. Inside the loops every term of the index is non-negative
  and at most the index, so an index inside the buffer (whose length is an \<open>int\<close>) was
  computed without overflow; \<open>h++\<close> and \<open>w++\<close> stay below \<open>_height\<close> and \<open>_width\<close>.
\<close>

definition depth_assign ::
  "Renderer \<Rightarrow> int \<Rightarrow> int \<Rightarrow> GLfloat ndarray \<Rightarrow> failure + GLfloat ndarray" where
  "depth_assign r h w depth_map =
     (case fetch (depth_buffer r) ((height r - h - 1) * width r + w) of
        Inl e \<Rightarrow> Inl e
      | Inr v \<Rightarrow> store depth_map (offset2 depth_map h w) v)"

function depth_cols ::
  "Renderer \<Rightarrow> int \<Rightarrow> int \<Rightarrow> GLfloat ndarray \<Rightarrow> failure + GLfloat ndarray" where
  "depth_cols r h w depth_map =
     (if w < width r then
        (case depth_assign r h w depth_map of
           Inl e \<Rightarrow> Inl e
         | Inr m \<Rightarrow> depth_cols r h (w + 1) m)
      else Inr depth_map)"
  by pat_completeness auto
termination
  by (relation "measure (\<lambda>(r, h, w, depth_map). nat (width r - w))") auto

declare depth_cols.simps [simp del]

function depth_rows ::
  "Renderer \<Rightarrow> int \<Rightarrow> GLfloat ndarray \<Rightarrow> failure + GLfloat ndarray" where
  "depth_rows r h depth_map =
     (if h < height r then
        (case depth_cols r h 0 depth_map of
           Inl e \<Rightarrow> Inl e
         | Inr m \<Rightarrow> depth_rows r (h + 1) m)
      else Inr depth_map)"
  by pat_completeness auto
termination
  by (relation "measure (\<lambda>(r, h, depth_map). nat (height r - h))") auto

declare depth_rows.simps [simp del]

text \<open>
  \<open>rgb_map(h, w, c) = _color_buffer[(_height - h - 1) * _width * 3 + w * 3 + c]\<close> for
  \<open>c\<close> = 0, 1, 2 in turn: the byte is widened to the \<open>GLuint\<close> element of the array.
\<close>

definition rgb_assign ::
  "Renderer \<Rightarrow> int \<Rightarrow> int \<Rightarrow> int \<Rightarrow> GLuint ndarray \<Rightarrow> failure + GLuint ndarray" where
  "rgb_assign r h w c rgb_map =
     (case fetch (color_buffer r) ((height r - h - 1) * width r * 3 + w * 3 + c) of
        Inl e \<Rightarrow> Inl e
      | Inr v \<Rightarrow> store rgb_map (offset3 rgb_map h w c) (ucast v))"

function rgb_cols ::
  "Renderer \<Rightarrow> int \<Rightarrow> int \<Rightarrow> GLuint ndarray \<Rightarrow> failure + GLuint ndarray" where
  "rgb_cols r h w rgb_map =
     (if w < width r then
        (case rgb_assign r h w 0 rgb_map of
           Inl e \<Rightarrow> Inl e
         | Inr m0 \<Rightarrow>
             (case rgb_assign r h w 1 m0 of
                Inl e \<Rightarrow> Inl e
              | Inr m1 \<Rightarrow>
                  (case rgb_assign r h w 2 m1 of
                     Inl e \<Rightarrow> Inl e
                   | Inr m2 \<Rightarrow> rgb_cols r h (w + 1) m2)))
      else Inr rgb_map)"
  by pat_completeness auto
termination
  by (relation "measure (\<lambda>(r, h, w, rgb_map). nat (width r - w))") auto

declare rgb_cols.simps [simp del]

function rgb_rows ::
  "Renderer \<Rightarrow> int \<Rightarrow> GLuint ndarray \<Rightarrow> failure + GLuint ndarray" where
  "rgb_rows r h rgb_map =
     (if h < height r then
        (case rgb_cols r h 0 rgb_map of
           Inl e \<Rightarrow> Inl e
         | Inr m \<Rightarrow> rgb_rows r (h + 1) m)
      else Inr rgb_map)"
  by pat_completeness auto
termination
  by (relation "measure (\<lambda>(r, h, rgb_map). nat (height r - h))") auto

declare rgb_rows.simps [simp del]

subsection \<open>The render calls\<close>

text \<open>
  The first argument of each is what the driver delivers to \<open>glReadPixels\<close> in this
  call. The result is the renderer, the world and the caller's array after the call.
\<close>

definition render_depth_map ::
  "GLfloat list \<Rightarrow> PerspectiveCamera \<Rightarrow> GLfloat ndarray \<Rightarrow> Renderer \<Rightarrow> world
     \<Rightarrow> failure + Renderer \<times> world \<times> GLfloat ndarray" where
  "render_depth_map pixels camera np_depth_map r w =
     (let w0 = call (glfwWindowShouldClose (window r)) w in
      if window r \<in> closing w0 then
        Inr (r, issue [glfwDestroyWindow (window r), glfwTerminate] w0, np_depth_map)
      else
        let w1 = issue
                   [program_use (main_program r),
                    glEnable GL_BLEND,
                    glEnable GL_CULL_FACE,
                    glEnable GL_DEPTH_TEST,
                    glBlendFunc GL_SRC_ALPHA GL_ONE_MINUS_SRC_ALPHA,
                    glBindRenderbuffer GL_RENDERBUFFER (render_buffer r),
                    glFramebufferRenderbuffer GL_FRAMEBUFFER GL_DEPTH_ATTACHMENT
                      GL_RENDERBUFFER (render_buffer r)] w0
        in case render_objects camera r w1 of
             Inl e \<Rightarrow> Inl e
           | Inr w2 \<Rightarrow>
               let w3 = call (glReadPixels 0 0 (width r) (height r)
                                GL_DEPTH_COMPONENT GL_FLOAT) w2;
                   r1 = r\<lparr>depth_buffer := overwrite (depth_buffer r) pixels\<rparr>
               in case mutable_unchecked 2 np_depth_map of
                    Inl e \<Rightarrow> Inl e
                  | Inr depth_map \<Rightarrow>
                      (case depth_rows r1 0 depth_map of
                         Inl e \<Rightarrow> Inl e
                       | Inr out \<Rightarrow>
                           Inr (r1,
                                issue [glUseProgram 0, glBindVertexArray 0,
                                       glBindRenderbuffer GL_RENDERBUFFER 0] w3,
                                out)))"

definition render ::
  "GLubyte list \<Rightarrow> PerspectiveCamera \<Rightarrow> GLuint ndarray \<Rightarrow> Renderer \<Rightarrow> world
     \<Rightarrow> failure + Renderer \<times> world \<times> GLuint ndarray" where
  "render pixels camera np_rgb_map r w =
     (let w0 = call (glfwWindowShouldClose (window r)) w in
      if window r \<in> closing w0 then
        Inr (r, issue [glfwDestroyWindow (window r), glfwTerminate] w0, np_rgb_map)
      else
        let w1 = issue
                   [program_use (main_program r),
                    glEnable GL_BLEND,
                    glEnable GL_CULL_FACE,
                    glEnable GL_DEPTH_TEST,
                    glBlendFunc GL_SRC_ALPHA GL_ONE_MINUS_SRC_ALPHA,
                    glPixelStorei GL_PACK_ALIGNMENT 1,
                    glViewport 0 0 (width r) (height r),
                    glBindRenderbuffer GL_RENDERBUFFER (render_buffer r),
                    glFramebufferRenderbuffer GL_FRAMEBUFFER GL_COLOR_ATTACHMENT0
                      GL_RENDERBUFFER (render_buffer r)] w0
        in case render_objects camera r w1 of
             Inl e \<Rightarrow> Inl e
           | Inr w2 \<Rightarrow>
               let w3 = call (glReadPixels 0 0 (width r) (height r)
                                GL_RGB GL_UNSIGNED_BYTE) w2;
                   r1 = r\<lparr>color_buffer := overwrite (color_buffer r) pixels\<rparr>
               in case mutable_unchecked 3 np_rgb_map of
                    Inl e \<Rightarrow> Inl e
                  | Inr rgb_map \<Rightarrow>
                      (case rgb_rows r1 0 rgb_map of
                         Inl e \<Rightarrow> Inl e
                       | Inr out \<Rightarrow>
                           Inr (r1,
                                issue [glUseProgram 0, glBindVertexArray 0,
                                       glBindRenderbuffer GL_RENDERBUFFER 0] w3,
                                out)))"

text \<open>The overloads that take a scene: \<open>set_scene\<close>, then the call above.\<close>

definition render_depth_map_scene ::
  "GLfloat list \<Rightarrow> scene_ptr \<Rightarrow> PerspectiveCamera \<Rightarrow> GLfloat ndarray \<Rightarrow> Renderer \<Rightarrow> world
     \<Rightarrow> failure + Renderer \<times> world \<times> GLfloat ndarray" where
  "render_depth_map_scene pixels scene_arg camera np_depth_map r w =
     (case set_scene scene_arg r w of
        Inl e \<Rightarrow> Inl e
      | Inr (r1, w1) \<Rightarrow> render_depth_map pixels camera np_depth_map r1 w1)"

definition render_scene ::
  "GLubyte list \<Rightarrow> scene_ptr \<Rightarrow> PerspectiveCamera \<Rightarrow> GLuint ndarray \<Rightarrow> Renderer \<Rightarrow> world
     \<Rightarrow> failure + Renderer \<times> world \<times> GLuint ndarray" where
  "render_scene pixels scene_arg camera np_rgb_map r w =
     (case set_scene scene_arg r w of
        Inl e \<Rightarrow> Inl e
      | Inr (r1, w1) \<Rightarrow> render pixels camera np_rgb_map r1 w1)"

subsection \<open>Operations of a live Renderer, and sequences of them\<close>

datatype operation =
    Set_scene scene_ptr
  | Render_objects PerspectiveCamera
  | Render_depth_map "GLfloat list" PerspectiveCamera "GLfloat ndarray"
  | Render "GLubyte list" PerspectiveCamera "GLuint ndarray"
  | Render_depth_map_scene "GLfloat list" scene_ptr PerspectiveCamera "GLfloat ndarray"
  | Render_scene "GLubyte list" scene_ptr PerspectiveCamera "GLuint ndarray"

fun perform :: "operation \<Rightarrow> Renderer \<times> world \<Rightarrow> failure + Renderer \<times> world" where
  "perform (Set_scene p) (r, w) = set_scene p r w"
| "perform (Render_objects camera) (r, w) =
     (case render_objects camera r w of Inl e \<Rightarrow> Inl e | Inr w1 \<Rightarrow> Inr (r, w1))"
| "perform (Render_depth_map pixels camera a) (r, w) =
     (case render_depth_map pixels camera a r w of
        Inl e \<Rightarrow> Inl e | Inr (r1, w1, out) \<Rightarrow> Inr (r1, w1))"
| "perform (Render pixels camera a) (r, w) =
     (case render pixels camera a r w of
        Inl e \<Rightarrow> Inl e | Inr (r1, w1, out) \<Rightarrow> Inr (r1, w1))"
| "perform (Render_depth_map_scene pixels p camera a) (r, w) =
     (case render_depth_map_scene pixels p camera a r w of
        Inl e \<Rightarrow> Inl e | Inr (r1, w1, out) \<Rightarrow> Inr (r1, w1))"
| "perform (Render_scene pixels p camera a) (r, w) =
     (case render_scene pixels p camera a r w of
        Inl e \<Rightarrow> Inl e | Inr (r1, w1, out) \<Rightarrow> Inr (r1, w1))"

fun run :: "operation list \<Rightarrow> Renderer \<times> world \<Rightarrow> failure + Renderer \<times> world" where
  "run [] s = Inr s"
| "run (op # ops) s = (case perform op s of Inl e \<Rightarrow> Inl e | Inr s1 \<Rightarrow> run ops s1)"

fun sets_scene :: "operation \<Rightarrow> bool" where
  "sets_scene (Set_scene p) = True"
| "sets_scene (Render_depth_map_scene pixels p camera a) = True"
| "sets_scene (Render_scene pixels p camera a) = True"
| "sets_scene op = False"

subsection \<open>Vocabulary of the statements\<close>

text \<open>The calls issued between two worlds: what the later log has beyond the earlier.\<close>

definition issued :: "world \<Rightarrow> world \<Rightarrow> api_call list" where
  "issued w w1 = drop (length (calls w)) (calls w1)"

fun uses_program :: "program \<Rightarrow> api_call \<Rightarrow> bool" where
  "uses_program p (program_use q) = (p = q)"
| "uses_program p (uniform_matrix q loc m) = (p = q)"
| "uses_program p (uniform_float q loc x) = (p = q)"
| "uses_program p c = False"

definition uses_only :: "program \<Rightarrow> api_call list \<Rightarrow> bool" where
  "uses_only p cs \<longleftrightarrow> (\<forall>c \<in> set cs. \<forall>q. uses_program q c \<longrightarrow> q = p)"

text \<open>
  The draw pass in the words of the specification, to compare the loop of the source
  with: for the object at index \<open>i\<close>, bind
  slot \<open>i\<close>, upload model, view and projection matrix and the smoothness float, and
  draw \<open>3 * num_faces\<close> vertices as triangles; the objects in list order.
\<close>

definition spec_object_calls :: "Renderer \<Rightarrow> PerspectiveCamera \<Rightarrow> nat \<Rightarrow> Object \<Rightarrow> api_call list" where
  "spec_object_calls r camera i obj =
     [vao_bind_object (int i),
      uniform_matrix (main_program r) 0 (model_matrix obj),
      uniform_matrix (main_program r) 1 (view_matrix camera),
      uniform_matrix (main_program r) 2 (projection_matrix camera),
      uniform_float (main_program r) 3 (if smoothness obj then float_1_0 else float_0_0),
      glDrawArrays GL_TRIANGLES 0 (3 * num_faces obj)]"

definition spec_scene_calls :: "Renderer \<Rightarrow> PerspectiveCamera \<Rightarrow> Object list \<Rightarrow> api_call list" where
  "spec_scene_calls r camera objs =
     concat (map (\<lambda>i. spec_object_calls r camera i (objs ! i)) [0..<length objs])"

text \<open>The calls that \<open>render_objects\<close> issues before its loop, in the order of the source.\<close>

definition prologue :: "Renderer \<Rightarrow> api_call list" where
  "prologue r =
     [glfwMakeContextCurrent (window r),
      glViewport 0 0 (width r) (height r),
      glClear [GL_COLOR_BUFFER_BIT, GL_DEPTH_BUFFER_BIT],
      glClearColor float_0_0 float_0_0 float_0_0 float_1_0]"

text \<open>
  A scene whose draw pass is defined: its objects can be counted by an \<open>int\<close> and the
  vertex count of each fits one. The renderer is bound to scene \<open>sc\<close> when its pointer
  leads to \<open>sc\<close> and the geometry binding has the slots of \<open>sc\<close>.
\<close>

definition drawable :: "Scene \<Rightarrow> bool" where
  "drawable sc \<longleftrightarrow>
     int (length (objects sc)) \<le> INT_MAX \<and>
     (\<forall>obj \<in> set (objects sc). INT_MIN \<le> 3 * num_faces obj \<and> 3 * num_faces obj \<le> INT_MAX)"

definition bound_to :: "Renderer \<Rightarrow> world \<Rightarrow> Scene \<Rightarrow> bool" where
  "bound_to r w sc \<longleftrightarrow>
     (case scene r of None \<Rightarrow> False | Some p \<Rightarrow> scenes w p = Some sc)
     \<and> slots (vao r) = objects sc"

text \<open>
  The calls of a whole render call that does not take the close branch: the query, the
  setup of the pass as the source issues it (depth or colour attachment), the calls
  before the loop, the draw pass of the specification, the readback, and the restoring
  of the default bindings.
\<close>

definition depth_pass_setup :: "Renderer \<Rightarrow> api_call list" where
  "depth_pass_setup r =
     [program_use (main_program r),
      glEnable GL_BLEND, glEnable GL_CULL_FACE, glEnable GL_DEPTH_TEST,
      glBlendFunc GL_SRC_ALPHA GL_ONE_MINUS_SRC_ALPHA,
      glBindRenderbuffer GL_RENDERBUFFER (render_buffer r),
      glFramebufferRenderbuffer GL_FRAMEBUFFER GL_DEPTH_ATTACHMENT
        GL_RENDERBUFFER (render_buffer r)]"

definition color_pass_setup :: "Renderer \<Rightarrow> api_call list" where
  "color_pass_setup r =
     [program_use (main_program r),
      glEnable GL_BLEND, glEnable GL_CULL_FACE, glEnable GL_DEPTH_TEST,
      glBlendFunc GL_SRC_ALPHA GL_ONE_MINUS_SRC_ALPHA,
      glPixelStorei GL_PACK_ALIGNMENT 1,
      glViewport 0 0 (width r) (height r),
      glBindRenderbuffer GL_RENDERBUFFER (render_buffer r),
      glFramebufferRenderbuffer GL_FRAMEBUFFER GL_COLOR_ATTACHMENT0
        GL_RENDERBUFFER (render_buffer r)]"

definition restore_defaults :: "api_call list" where
  "restore_defaults =
     [glUseProgram 0, glBindVertexArray 0, glBindRenderbuffer GL_RENDERBUFFER 0]"

definition depth_pass_calls :: "Renderer \<Rightarrow> PerspectiveCamera \<Rightarrow> Object list \<Rightarrow> api_call list" where
  "depth_pass_calls r camera objs =
     glfwWindowShouldClose (window r) # depth_pass_setup r
     @ prologue r @ spec_scene_calls r camera objs
     @ glReadPixels 0 0 (width r) (height r) GL_DEPTH_COMPONENT GL_FLOAT # restore_defaults"

definition color_pass_calls :: "Renderer \<Rightarrow> PerspectiveCamera \<Rightarrow> Object list \<Rightarrow> api_call list" where
  "color_pass_calls r camera objs =
     glfwWindowShouldClose (window r) # color_pass_setup r
     @ prologue r @ spec_scene_calls r camera objs
     @ glReadPixels 0 0 (width r) (height r) GL_RGB GL_UNSIGNED_BYTE # restore_defaults"

subsection \<open>Example values\<close>

definition example_platform :: platform where
  "example_platform =
     \<lparr>apple = False, glfwInit_result = True, has_room = (\<lambda>bytes. True),
      glfwCreateWindow_result = 7,
      new_VertexArrayObject_throws = None, new_Depth_throws = None, new_Main_throws = None,
      glGenRenderbuffers_result = 1\<rparr>"

definition triangle :: Object where
  "triangle = \<lparr>model_matrix = [1, 2], smoothness = True, num_faces = 1\<rparr>"

definition quad :: Object where
  "quad = \<lparr>model_matrix = [3], smoothness = False, num_faces = 2\<rparr>"

definition scene_A :: Scene where
  "scene_A = \<lparr>objects = [triangle]\<rparr>"

definition scene_B :: Scene where
  "scene_B = \<lparr>objects = [quad, triangle]\<rparr>"

definition empty_scene :: Scene where
  "empty_scene = \<lparr>objects = []\<rparr>"

definition example_camera :: PerspectiveCamera where
  "example_camera = \<lparr>view_matrix = [4], projection_matrix = [5]\<rparr>"

text \<open>
  The world before the renderer is constructed: nothing has been called, GLFW is down,
  and the host holds three scenes at the addresses 1, 2 and 3.
\<close>

definition process_start :: world where
  "process_start =
     \<lparr>calls = [], glfw_up = False, live = {}, closing = {},
      scenes = [1 \<mapsto> scene_A, 2 \<mapsto> scene_B, 3 \<mapsto> empty_scene],
      clear_color = (0, 0, 0, 0), clear_depth = 0, viewport = (0, 0, 0, 0),
      color_plane = Rasterized, depth_plane = Rasterized, program_in_use = None\<rparr>"

text \<open>
  A renderer of 2 by 2 pixels constructed on that world and bound to the scene at
  address 2, the world it leaves, and the same world once the window has been asked
  to close.
\<close>

definition example_renderer :: Renderer where
  "example_renderer =
     \<lparr>width = 2, height = 2,
      depth_buffer = [0, 0, 0, 0],
      color_buffer = [0, 0, 0, 0, 0, 0, 0, 0, 0, 0, 0, 0],
      prev_num_objects = - 1, window = 7,
      vao = \<lparr>slots = [quad, triangle]\<rparr>,
      depth_program = Depth, main_program = Main, render_buffer = 1,
      scene = Some 2\<rparr>"

definition example_world :: world where
  "example_world =
     \<lparr>calls =
        [glfwSetErrorCallback, glfwInit True,
         new_GLfloat_array 4, new_GLubyte_array 12,
         glfwWindowHint GLFW_CONTEXT_VERSION_MAJOR (Num 3),
         glfwWindowHint GLFW_CONTEXT_VERSION_MINOR (Num 2),
         glfwWindowHint GLFW_OPENGL_PROFILE (Const GLFW_OPENGL_CORE_PROFILE),
         glfwWindowHint GLFW_VISIBLE (Const GL_FALSE),
         glfwCreateWindow 2 2 ''Renderer'' 7, glfwMakeContextCurrent 7, gl3wInit,
         new_VertexArrayObject, new_program Depth, new_program Main,
         glGenRenderbuffers 1 1, glfwMakeContextCurrent 7, vao_build 2],
      glfw_up = True, live = {7}, closing = {},
      scenes = [1 \<mapsto> scene_A, 2 \<mapsto> scene_B, 3 \<mapsto> empty_scene],
      clear_color = (float_0_0, float_0_0, float_0_0, float_0_0),
      clear_depth = float_1_0, viewport = (0, 0, 2, 2),
      color_plane = Rasterized, depth_plane = Rasterized, program_in_use = None\<rparr>"

definition closing_world :: world where
  "closing_world = example_world\<lparr>closing := {7}\<rparr>"

definition depth_out :: "GLfloat ndarray" where
  "depth_out = \<lparr>shape = [2, 2], elems = [0, 0, 0, 0]\<rparr>"

definition rgb_out :: "GLuint ndarray" where
  "rgb_out = \<lparr>shape = [2, 2, 3], elems = [0, 0, 0, 0, 0, 0, 0, 0, 0, 0, 0, 0]\<rparr>"

section \<open>Facts about the log and the registers\<close>

lemma calls_call: "calls (call c w) = calls w @ [c]"
  by (simp add: call_def)

lemma calls_issue: "calls (issue cs w) = calls w @ cs"
  by (induction cs arbitrary: w) (simp_all add: issue_def calls_call)

lemma issue_Nil: "issue [] w = w"
  by (simp add: issue_def)

lemma issue_Cons: "issue (c # cs) w = issue cs (call c w)"
  by (simp add: issue_def)

lemma scenes_call: "scenes (call c w) = scenes w"
  by (cases c) (simp_all add: call_def)

lemma scenes_issue: "scenes (issue cs w) = scenes w"
  by (induction cs arbitrary: w) (simp_all add: issue_Nil issue_Cons scenes_call)

section \<open>Construction\<close>

lemma int_mul_Inr: "INT_MIN \<le> a * b \<Longrightarrow> a * b \<le> INT_MAX \<Longrightarrow> int_mul a b = Inr (a * b)"
  by (simp add: int_mul_def)

lemma make_unique_array_Inr:
  "0 \<le> n \<Longrightarrow> room (k * nat n) \<Longrightarrow> make_unique_array room k n = Inr (replicate (nat n) 0)"
  by (simp add: make_unique_array_def)

lemma initialize_Inr:
  assumes "initialize pf wd ht w = Inr (r, w1)"
  shows "width r = wd \<and> height r = ht \<and> 0 \<le> wd * ht \<and> wd * ht * 3 \<le> INT_MAX
     \<and> length (depth_buffer r) = nat (wd * ht) \<and> length (color_buffer r) = nat (wd * ht * 3)
     \<and> main_program r = Main \<and> depth_program r = Depth \<and> scenes w1 = scenes w
     \<and> scene r = None \<and> glfwInit_result pf"
  using assms
  by (auto simp add: initialize_def int_mul_def make_unique_array_def Let_def scenes_issue
      scenes_call split: if_splits option.splits)

lemma initialize_total:
  assumes "glfwInit_result pf" "0 \<le> wd * ht" "wd * ht * 3 \<le> INT_MAX"
    and "has_room pf (4 * nat (wd * ht))" "has_room pf (nat (wd * ht * 3))"
    and "new_VertexArrayObject_throws pf = None" "new_Depth_throws pf = None"
      "new_Main_throws pf = None"
  shows "\<exists>r w1. initialize pf wd ht w = Inr (r, w1)"
proof -
  from assms(2,3) have i: "INT_MIN \<le> wd * ht" "wd * ht \<le> INT_MAX"
    "INT_MIN \<le> wd * ht * 3" "0 \<le> wd * ht * 3"
    by (simp_all add: INT_MIN_def INT_MAX_def)
  have m: "int_mul wd ht = Inr (wd * ht)" "int_mul (wd * ht) 3 = Inr (wd * ht * 3)"
    by (rule int_mul_Inr [OF i(1) i(2)], rule int_mul_Inr [OF i(3) assms(3)])
  have a: "make_unique_array (has_room pf) 4 (wd * ht)
             = Inr (replicate (nat (wd * ht)) (0 :: GLfloat))"
    "make_unique_array (has_room pf) 1 (wd * ht * 3)
             = Inr (replicate (nat (wd * ht * 3)) (0 :: GLubyte))"
  proof -
    show "make_unique_array (has_room pf) 4 (wd * ht)
             = Inr (replicate (nat (wd * ht)) (0 :: GLfloat))"
      by (rule make_unique_array_Inr [where room = "has_room pf" and k = 4, OF assms(2) assms(4)])
    have "has_room pf (1 * nat (wd * ht * 3))" using assms(5) by simp
    from make_unique_array_Inr [where room = "has_room pf" and k = 1, OF i(4) this]
    show "make_unique_array (has_room pf) 1 (wd * ht * 3)
             = Inr (replicate (nat (wd * ht * 3)) (0 :: GLubyte))" .
  qed
  show ?thesis
    unfolding initialize_def Let_def
    by (simp only: m a assms(1,6,7,8) sum.case option.case if_False not_True_eq_False
        simp_thms) blast
qed








section \<open>The close signal\<close>

text \<open>
  Claim C3. When the window has received a close signal, \<open>render\<close> and
  \<open>render_depth_map\<close> return normally; the only calls they issue are the query, the
  destruction of the window and the termination of GLFW (no clear, no draw call, no
  readback); the window is gone and the library is down afterwards; the planes of the
  framebuffer and the caller's array are what they were.
\<close>

theorem close_signal_returns_untouched:
  assumes "window r \<in> closing w"
  shows "(\<exists>w1. render pixels camera np_rgb_map r w = Inr (r, w1, np_rgb_map)
            \<and> issued w w1 = [glfwWindowShouldClose (window r),
                              glfwDestroyWindow (window r), glfwTerminate]
            \<and> window r \<notin> live w1 \<and> \<not> glfw_up w1
            \<and> color_plane w1 = color_plane w \<and> depth_plane w1 = depth_plane w)
       \<and> (\<exists>w1. render_depth_map pixels_d camera np_depth_map r w = Inr (r, w1, np_depth_map)
            \<and> issued w w1 = [glfwWindowShouldClose (window r),
                              glfwDestroyWindow (window r), glfwTerminate]
            \<and> window r \<notin> live w1 \<and> \<not> glfw_up w1
            \<and> color_plane w1 = color_plane w \<and> depth_plane w1 = depth_plane w)"
  using assms
  by (simp add: render_def render_depth_map_def Let_def issued_def calls_issue calls_call
      issue_Cons issue_Nil call_def)

section \<open>The draw pass\<close>

lemma render_objects_loop_ok:
  assumes "int (length objs) \<le> INT_MAX"
    and "\<forall>obj \<in> set objs. INT_MIN \<le> 3 * num_faces obj \<and> 3 * num_faces obj \<le> INT_MAX"
    and "length objs \<le> length (slots (vao r))"
    and "i \<le> length objs"
  shows "\<exists>w1. render_objects_loop r camera objs (int i) w = Inr w1
           \<and> calls w1 = calls w
               @ concat (map (\<lambda>j. spec_object_calls r camera j (objs ! j)) [i..<length objs])
           \<and> scenes w1 = scenes w \<and> closing w1 = closing w \<and> live w1 = live w
           \<and> glfw_up w1 = glfw_up w
           \<and> clear_color w1 = clear_color w \<and> clear_depth w1 = clear_depth w
           \<and> viewport w1 = viewport w \<and> program_in_use w1 = program_in_use w
           \<and> (i = length objs \<longrightarrow> w1 = w)"
  using assms(4)
proof (induction "length objs - i" arbitrary: i w)
  case 0
  then have "i = length objs" by simp
  then show ?case by (subst render_objects_loop.simps) simp
next
  case (Suc k)
  then have lt: "i < length objs" and k: "k = length objs - Suc i" by simp_all
  from lt assms(2) have nf: "INT_MIN \<le> 3 * num_faces (objs ! i) \<and> 3 * num_faces (objs ! i) \<le> INT_MAX"
    by simp
  from lt assms(1) have ni: "int i \<noteq> INT_MAX" by simp
  from lt assms(3) have sl: "i < length (slots (vao r))" by simp
  define w3 where "w3 = issue (spec_object_calls r camera i (objs ! i)) w"
  from lt have "Suc i \<le> length objs" by simp
  from Suc.hyps(1) [OF k this, of w3]
  obtain w1 where w1: "render_objects_loop r camera objs (int (Suc i)) w3 = Inr w1"
    "calls w1 = calls w3 @ concat (map (\<lambda>j. spec_object_calls r camera j (objs ! j)) [Suc i..<length objs])"
    "scenes w1 = scenes w3 \<and> closing w1 = closing w3 \<and> live w1 = live w3
           \<and> glfw_up w1 = glfw_up w3
           \<and> clear_color w1 = clear_color w3 \<and> clear_depth w1 = clear_depth w3
           \<and> viewport w1 = viewport w3 \<and> program_in_use w1 = program_in_use w3"
    by blast
  have step: "render_objects_loop r camera objs (int i) w
      = render_objects_loop r camera objs (int (Suc i)) w3"
    using lt nf ni sl
    by (subst render_objects_loop.simps)
       (simp add: Let_def int_mul_def bind_object_def w3_def spec_object_calls_def issue_Cons
          issue_Nil add.commute)
  have fr: "scenes w3 = scenes w \<and> closing w3 = closing w \<and> live w3 = live w
           \<and> glfw_up w3 = glfw_up w
           \<and> clear_color w3 = clear_color w \<and> clear_depth w3 = clear_depth w
           \<and> viewport w3 = viewport w \<and> program_in_use w3 = program_in_use w"
    by (simp add: w3_def spec_object_calls_def issue_Cons issue_Nil call_def)
  have c3: "calls w3 = calls w @ spec_object_calls r camera i (objs ! i)"
    by (simp add: w3_def calls_issue)
  from lt have "[i..<length objs] = i # [Suc i..<length objs]"
    by (simp add: upt_conv_Cons)
  with w1 step fr c3 lt show ?case by simp
qed

section \<open>The flipping copies\<close>

lemma flip_index_bounds:
  fixes h w H W :: int
  assumes "0 \<le> h" "h < H" "0 \<le> w" "w < W"
  shows "0 \<le> (H - h - 1) * W + w \<and> (H - h - 1) * W + w < W * H"
proof -
  have a: "0 \<le> (H - h - 1) * W" using assms by simp
  have "(H - h - 1) * W + w < (H - h - 1) * W + W" using assms by simp
  also have "\<dots> = (H - h) * W" by (simp add: algebra_simps)
  also have "\<dots> \<le> H * W" using assms by (intro mult_right_mono) simp_all
  finally show ?thesis using a assms by (simp add: mult.commute)
qed

lemma row_major_inj:
  fixes h w h' w' W :: nat
  assumes "w < W" "w' < W"
  shows "h * W + w = h' * W + w' \<longleftrightarrow> h = h' \<and> w = w'"
proof
  assume e: "h * W + w = h' * W + w'"
  have "(h * W + w) div W = h" "(h * W + w) mod W = w" using assms by simp_all
  moreover have "(h' * W + w') div W = h'" "(h' * W + w') mod W = w'" using assms by simp_all
  ultimately show "h = h' \<and> w = w'" using e by metis
qed simp

lemma row_major_bound:
  fixes h w H W :: nat
  assumes "h < H" "w < W"
  shows "h * W + w < H * W"
proof -
  have "h * W + w < h * W + W" using assms by simp
  also have "\<dots> = Suc h * W" by simp
  also have "\<dots> \<le> H * W" using assms by (intro mult_le_mono1) simp
  finally show ?thesis .
qed

lemma depth_assign_ok:
  assumes "0 \<le> h" "h < height r" "0 \<le> w" "w < width r"
    and "length (depth_buffer r) = nat (width r * height r)"
    and "shape m = [nat (height r), nat (width r)]"
    and "length (elems m) = nat (height r) * nat (width r)"
  shows "depth_assign r h w m =
           Inr (m\<lparr>elems := (elems m)[nat h * nat (width r) + nat w :=
                     depth_buffer r ! nat ((height r - h - 1) * width r + w)]\<rparr>)"
proof -
  from flip_index_bounds [OF assms(1-4)]
  have "0 \<le> (height r - h - 1) * width r + w"
    "(height r - h - 1) * width r + w < width r * height r" by simp_all
  then have f: "fetch (depth_buffer r) ((height r - h - 1) * width r + w)
      = Inr (depth_buffer r ! nat ((height r - h - 1) * width r + w))"
    using assms(5) by (simp add: fetch_def)
  have "nat h < nat (height r)" "nat w < nat (width r)" using assms by simp_all
  from row_major_bound [OF this] have "nat h * nat (width r) + nat w < length (elems m)"
    using assms(7) by simp
  then show ?thesis
    using f assms(6) by (simp add: depth_assign_def store_def offset2_def)
qed

lemma depth_cols_ok:
  assumes "0 \<le> h" "h < height r"
    and "length (depth_buffer r) = nat (width r * height r)"
    and "shape m = [nat (height r), nat (width r)]"
    and "length (elems m) = nat (height r) * nat (width r)"
    and "0 \<le> w"
  shows "\<exists>m1. depth_cols r h w m = Inr m1 \<and> shape m1 = shape m
           \<and> length (elems m1) = length (elems m)
           \<and> (\<forall>h1 w1. 0 \<le> h1 \<and> h1 < height r \<and> 0 \<le> w1 \<and> w1 < width r \<longrightarrow>
                 elems m1 ! (nat h1 * nat (width r) + nat w1) =
                   (if h1 = h \<and> w \<le> w1
                    then depth_buffer r ! nat ((height r - h - 1) * width r + w1)
                    else elems m ! (nat h1 * nat (width r) + nat w1)))"
  using assms(4-6)
proof (induction "nat (width r - w)" arbitrary: w m)
  case 0
  then have "\<not> w < width r" by simp
  then show ?case by (subst depth_cols.simps) auto
next
  case (Suc k)
  then have lt: "w < width r" and k: "k = nat (width r - (w + 1))" by linarith+
  define m0 where "m0 = m\<lparr>elems := (elems m)[nat h * nat (width r) + nat w :=
                     depth_buffer r ! nat ((height r - h - 1) * width r + w)]\<rparr>"
  have a: "depth_assign r h w m = Inr m0"
    unfolding m0_def using assms(1,2) Suc.prems lt assms(3)
    by (intro depth_assign_ok) simp_all
  have s0: "shape m0 = [nat (height r), nat (width r)]"
    "length (elems m0) = nat (height r) * nat (width r)" "0 \<le> w + 1"
    using Suc.prems by (simp_all add: m0_def)
  from Suc.hyps(1) [OF k s0] obtain m1 where m1: "depth_cols r h (w + 1) m0 = Inr m1"
    "shape m1 = shape m0" "length (elems m1) = length (elems m0)"
    "\<forall>h1 w1. 0 \<le> h1 \<and> h1 < height r \<and> 0 \<le> w1 \<and> w1 < width r \<longrightarrow>
                 elems m1 ! (nat h1 * nat (width r) + nat w1) =
                   (if h1 = h \<and> w + 1 \<le> w1
                    then depth_buffer r ! nat ((height r - h - 1) * width r + w1)
                    else elems m0 ! (nat h1 * nat (width r) + nat w1))"
    by blast
  have step: "depth_cols r h w m = Inr m1"
    using lt a m1(1) by (subst depth_cols.simps) simp
  have pt: "elems m1 ! (nat h1 * nat (width r) + nat w1) =
                   (if h1 = h \<and> w \<le> w1
                    then depth_buffer r ! nat ((height r - h - 1) * width r + w1)
                    else elems m ! (nat h1 * nat (width r) + nat w1))"
    if b: "0 \<le> h1" "h1 < height r" "0 \<le> w1" "w1 < width r" for h1 w1
  proof -
    have inj: "nat h * nat (width r) + nat w = nat h1 * nat (width r) + nat w1
        \<longleftrightarrow> h = h1 \<and> w = w1"
      using row_major_inj [of "nat w" "nat (width r)" "nat w1" "nat h" "nat h1"]
        b lt Suc.prems(3) assms(1) by auto
    have len: "nat h1 * nat (width r) + nat w1 < length (elems m)"
      using row_major_bound [of "nat h1" "nat (height r)" "nat w1" "nat (width r)"] b Suc.prems(2)
      by simp
    from m1(4) b have "elems m1 ! (nat h1 * nat (width r) + nat w1) =
                   (if h1 = h \<and> w + 1 \<le> w1
                    then depth_buffer r ! nat ((height r - h - 1) * width r + w1)
                    else elems m0 ! (nat h1 * nat (width r) + nat w1))" by blast
    then show ?thesis
      using inj len by (auto simp add: m0_def nth_list_update)
  qed
  from step m1(2,3) pt show ?case by (simp add: m0_def)
qed

lemma depth_rows_ok:
  assumes "length (depth_buffer r) = nat (width r * height r)"
    and "shape m = [nat (height r), nat (width r)]"
    and "length (elems m) = nat (height r) * nat (width r)"
    and "0 \<le> h"
  shows "\<exists>m1. depth_rows r h m = Inr m1 \<and> shape m1 = shape m
           \<and> length (elems m1) = length (elems m)
           \<and> (\<forall>h1 w1. 0 \<le> h1 \<and> h1 < height r \<and> 0 \<le> w1 \<and> w1 < width r \<longrightarrow>
                 elems m1 ! (nat h1 * nat (width r) + nat w1) =
                   (if h \<le> h1
                    then depth_buffer r ! nat ((height r - h1 - 1) * width r + w1)
                    else elems m ! (nat h1 * nat (width r) + nat w1)))"
  using assms(2-4)
proof (induction "nat (height r - h)" arbitrary: h m)
  case 0
  then have "\<not> h < height r" by simp
  then show ?case by (subst depth_rows.simps) auto
next
  case (Suc k)
  then have lt: "h < height r" and k: "k = nat (height r - (h + 1))" by linarith+
  from depth_cols_ok [OF Suc.prems(3) lt assms(1) Suc.prems(1,2), of 0]
  obtain m0 where m0: "depth_cols r h 0 m = Inr m0" "shape m0 = shape m"
    "length (elems m0) = length (elems m)"
    "\<forall>h1 w1. 0 \<le> h1 \<and> h1 < height r \<and> 0 \<le> w1 \<and> w1 < width r \<longrightarrow>
                 elems m0 ! (nat h1 * nat (width r) + nat w1) =
                   (if h1 = h \<and> 0 \<le> w1
                    then depth_buffer r ! nat ((height r - h - 1) * width r + w1)
                    else elems m ! (nat h1 * nat (width r) + nat w1))"
    by auto
  have s0: "shape m0 = [nat (height r), nat (width r)]"
    "length (elems m0) = nat (height r) * nat (width r)" "0 \<le> h + 1"
    using Suc.prems m0 by simp_all
  from Suc.hyps(1) [OF k s0] obtain m1 where m1: "depth_rows r (h + 1) m0 = Inr m1"
    "shape m1 = shape m0" "length (elems m1) = length (elems m0)"
    "\<forall>h1 w1. 0 \<le> h1 \<and> h1 < height r \<and> 0 \<le> w1 \<and> w1 < width r \<longrightarrow>
                 elems m1 ! (nat h1 * nat (width r) + nat w1) =
                   (if h + 1 \<le> h1
                    then depth_buffer r ! nat ((height r - h1 - 1) * width r + w1)
                    else elems m0 ! (nat h1 * nat (width r) + nat w1))"
    by blast
  have step: "depth_rows r h m = Inr m1"
    using lt m0(1) m1(1) by (subst depth_rows.simps) simp
  have pt: "elems m1 ! (nat h1 * nat (width r) + nat w1) =
                   (if h \<le> h1
                    then depth_buffer r ! nat ((height r - h1 - 1) * width r + w1)
                    else elems m ! (nat h1 * nat (width r) + nat w1))"
    if b: "0 \<le> h1" "h1 < height r" "0 \<le> w1" "w1 < width r" for h1 w1
    using m1(4) m0(4) b by (cases "h1 = h") auto
  from step m1(2,3) m0(2,3) pt show ?case by simp
qed

section \<open>The example renderer\<close>

lemma example_construction:
  "Renderer3 example_platform 2 2 2 process_start = Inr (example_renderer, example_world)"
  by (simp add: Renderer3_def initialize_def set_scene_def example_platform_def process_start_def
      example_renderer_def example_world_def int_mul_def INT_MIN_def INT_MAX_def
      make_unique_array_def window_hints_def issue_Cons issue_Nil call_def Let_def build_def
      scene_B_def eval_nat_numeral)

text \<open>Claim C3 at the example renderer, after its window was asked to close.\<close>

theorem close_signal_returns_untouched_witness:
  "window example_renderer \<in> closing closing_world
   \<and> (\<exists>w1. render [1, 2, 3] example_camera rgb_out example_renderer closing_world
              = Inr (example_renderer, w1, rgb_out)
            \<and> issued closing_world w1 = [glfwWindowShouldClose 7, glfwDestroyWindow 7, glfwTerminate])
   \<and> (\<exists>w1. render_depth_map [1, 2, 3] example_camera depth_out example_renderer closing_world
              = Inr (example_renderer, w1, depth_out)
            \<and> issued closing_world w1 = [glfwWindowShouldClose 7, glfwDestroyWindow 7, glfwTerminate])"
proof -
  have h: "window example_renderer \<in> closing closing_world"
    by (simp add: example_renderer_def closing_world_def)
  have w: "window example_renderer = 7" by (simp add: example_renderer_def)
  from close_signal_returns_untouched [OF h, of "[1, 2, 3]" example_camera rgb_out "[1, 2, 3]" depth_out]
  show ?thesis using h unfolding w by blast
qed

text \<open>
  Claim C9. The close branch returns the Renderer it was given, field for field: the
  window handle is kept and nothing marks the teardown. The window is no longer live
  and GLFW is down, and the destructor run next issues \<open>glfwDestroyWindow\<close> on the same
  handle and \<open>glfwTerminate\<close> a second time.
\<close>

theorem close_branch_then_destructor:
  assumes "window r \<in> closing w"
  shows "(\<exists>w1. render_depth_map pixels_d camera np_depth_map r w = Inr (r, w1, np_depth_map)
            \<and> window r \<notin> live w1 \<and> \<not> glfw_up w1
            \<and> issued w (destroy r w1) =
                [glfwWindowShouldClose (window r),
                 glfwDestroyWindow (window r), glfwTerminate,
                 glfwDestroyWindow (window r), glfwTerminate])
       \<and> (\<exists>w1. render pixels camera np_rgb_map r w = Inr (r, w1, np_rgb_map)
            \<and> window r \<notin> live w1 \<and> \<not> glfw_up w1
            \<and> issued w (destroy r w1) =
                [glfwWindowShouldClose (window r),
                 glfwDestroyWindow (window r), glfwTerminate,
                 glfwDestroyWindow (window r), glfwTerminate])"
  using assms
  by (simp add: render_def render_depth_map_def destroy_def Let_def issued_def calls_issue
      calls_call issue_Cons issue_Nil call_def)

text \<open>Claim C9 at the example renderer.\<close>

theorem close_branch_then_destructor_witness:
  "window example_renderer \<in> closing closing_world
   \<and> (\<exists>w1. render_depth_map [] example_camera depth_out example_renderer closing_world
               = Inr (example_renderer, w1, depth_out)
            \<and> 7 \<notin> live w1
            \<and> issued closing_world (destroy example_renderer w1) =
                [glfwWindowShouldClose 7, glfwDestroyWindow 7, glfwTerminate,
                 glfwDestroyWindow 7, glfwTerminate])"
proof -
  have h: "window example_renderer \<in> closing closing_world"
    by (simp add: example_renderer_def closing_world_def)
  have w: "window example_renderer = 7" by (simp add: example_renderer_def)
  from close_branch_then_destructor [OF h, of "[]" example_camera depth_out "[]" rgb_out]
  show ?thesis using h unfolding w by blast
qed

section \<open>The whole draw pass\<close>

lemma render_objects_ok:
  assumes "bound_to r w sc" "drawable sc"
  shows "\<exists>w1. render_objects camera r w = Inr w1
           \<and> calls w1 = calls w @ prologue r @ spec_scene_calls r camera (objects sc)
           \<and> scenes w1 = scenes w \<and> closing w1 = closing w \<and> live w1 = live w
           \<and> glfw_up w1 = glfw_up w
           \<and> clear_color w1 = (float_0_0, float_0_0, float_0_0, float_1_0)
           \<and> clear_depth w1 = clear_depth w
           \<and> viewport w1 = (0, 0, width r, height r)
           \<and> program_in_use w1 = program_in_use w
           \<and> (objects sc = [] \<longrightarrow> color_plane w1 = Uniform (clear_color w)
                                  \<and> depth_plane w1 = Uniform (clear_depth w))"
proof -
  define w0 where "w0 = issue (prologue r) w"
  from assms(1) obtain p where p: "scene r = Some p" "scenes w p = Some sc"
    and sl: "slots (vao r) = objects sc"
    by (auto simp: bound_to_def split: option.splits)
  have ro: "render_objects camera r w = render_objects_loop r camera (objects sc) 0 w0"
    using p by (simp add: render_objects_def w0_def prologue_def scenes_issue Let_def)
  from assms(2) have d: "int (length (objects sc)) \<le> INT_MAX"
    "\<forall>obj \<in> set (objects sc). INT_MIN \<le> 3 * num_faces obj \<and> 3 * num_faces obj \<le> INT_MAX"
    by (simp_all add: drawable_def)
  from render_objects_loop_ok [OF d, of r 0 camera w0] sl
  obtain w1 where w1: "render_objects_loop r camera (objects sc) 0 w0 = Inr w1"
    "calls w1 = calls w0 @ spec_scene_calls r camera (objects sc)"
    "scenes w1 = scenes w0 \<and> closing w1 = closing w0 \<and> live w1 = live w0
           \<and> glfw_up w1 = glfw_up w0
           \<and> clear_color w1 = clear_color w0 \<and> clear_depth w1 = clear_depth w0
           \<and> viewport w1 = viewport w0 \<and> program_in_use w1 = program_in_use w0"
    "objects sc = [] \<longrightarrow> w1 = w0"
    by (auto simp: spec_scene_calls_def)
  have f0: "calls w0 = calls w @ prologue r" by (simp add: w0_def calls_issue)
  have f1: "scenes w0 = scenes w \<and> closing w0 = closing w \<and> live w0 = live w
           \<and> glfw_up w0 = glfw_up w
           \<and> clear_color w0 = (float_0_0, float_0_0, float_0_0, float_1_0)
           \<and> clear_depth w0 = clear_depth w
           \<and> viewport w0 = (0, 0, width r, height r)
           \<and> program_in_use w0 = program_in_use w
           \<and> color_plane w0 = Uniform (clear_color w)
           \<and> depth_plane w0 = Uniform (clear_depth w)"
    by (simp add: w0_def prologue_def issue_Cons issue_Nil call_def)
  from ro w1 f0 f1 show ?thesis by auto
qed

text \<open>
  Claim C2. For a renderer bound to a scene whose draw pass is defined,
  \<open>render_objects\<close> returns, and after the prologue the calls it issues are those of the
  specification: for each index \<open>i\<close> from 0 to N-1 in order, once, bind slot \<open>i\<close>,
  upload the model matrix of object \<open>i\<close>, the view and the projection matrix of the
  camera and the smoothness float (1.0 when the flag is set, else 0.0) to the main
  program, and draw \<open>3 * num_faces\<close> vertices as triangles. The pass leaves the
  active program as it found it: the one its caller activated.
\<close>

theorem render_objects_draws_each_object:
  assumes "bound_to r w sc" "drawable sc"
  shows "\<exists>w1. render_objects camera r w = Inr w1
           \<and> issued w w1 = prologue r @ spec_scene_calls r camera (objects sc)
           \<and> program_in_use w1 = program_in_use w"
  using render_objects_ok [OF assms, of camera] by (auto simp: issued_def)

lemma example_bound: "bound_to example_renderer example_world scene_B"
  by (simp add: bound_to_def example_renderer_def example_world_def scene_B_def)

lemma example_drawable: "drawable scene_B"
  by (simp add: drawable_def scene_B_def quad_def triangle_def INT_MIN_def INT_MAX_def)

text \<open>Claim C2 at the example renderer, whose scene holds a quad and a triangle.\<close>

theorem render_objects_draws_each_object_witness:
  "bound_to example_renderer example_world scene_B \<and> drawable scene_B
   \<and> (\<exists>w1. render_objects example_camera example_renderer example_world = Inr w1
        \<and> issued example_world w1 =
            [glfwMakeContextCurrent 7, glViewport 0 0 2 2,
             glClear [GL_COLOR_BUFFER_BIT, GL_DEPTH_BUFFER_BIT],
             glClearColor float_0_0 float_0_0 float_0_0 float_1_0,
             vao_bind_object 0,
             uniform_matrix Main 0 [3], uniform_matrix Main 1 [4], uniform_matrix Main 2 [5],
             uniform_float Main 3 float_0_0, glDrawArrays GL_TRIANGLES 0 6,
             vao_bind_object 1,
             uniform_matrix Main 0 [1, 2], uniform_matrix Main 1 [4], uniform_matrix Main 2 [5],
             uniform_float Main 3 float_1_0, glDrawArrays GL_TRIANGLES 0 3])"
proof -
  have e: "prologue example_renderer @ spec_scene_calls example_renderer example_camera (objects scene_B)
     = [glfwMakeContextCurrent 7, glViewport 0 0 2 2,
             glClear [GL_COLOR_BUFFER_BIT, GL_DEPTH_BUFFER_BIT],
             glClearColor float_0_0 float_0_0 float_0_0 float_1_0,
             vao_bind_object 0,
             uniform_matrix Main 0 [3], uniform_matrix Main 1 [4], uniform_matrix Main 2 [5],
             uniform_float Main 3 float_0_0, glDrawArrays GL_TRIANGLES 0 6,
             vao_bind_object 1,
             uniform_matrix Main 0 [1, 2], uniform_matrix Main 1 [4], uniform_matrix Main 2 [5],
             uniform_float Main 3 float_1_0, glDrawArrays GL_TRIANGLES 0 3]"
    by (simp add: prologue_def spec_scene_calls_def spec_object_calls_def example_renderer_def
        example_camera_def scene_B_def quad_def triangle_def upt_rec)
  from render_objects_draws_each_object [OF example_bound example_drawable, of example_camera]
  show ?thesis using example_bound example_drawable unfolding e by blast
qed

lemma floats_differ: "float_1_0 \<noteq> float_0_0"
  by (simp add: float_1_0_def float_0_0_def)

lemma later_clears_use_opaque_black:
  assumes "bound_to r w sc" "drawable sc" "objects sc = []"
    and "clear_color w = (float_0_0, float_0_0, float_0_0, float_1_0)"
  shows "\<exists>w1. render_objects camera r w = Inr w1
           \<and> color_plane w1 = Uniform (float_0_0, float_0_0, float_0_0, float_1_0)
           \<and> depth_plane w1 = Uniform (clear_depth w)"
  using render_objects_ok [OF assms(1,2), of camera] assms(3,4) by auto

text \<open>
  Claim C4 at the first draw pass of a renderer constructed for the empty scene: the
  viewport is set and the depth plane is cleared to 1.0, but \<open>glClear\<close> is issued
  before \<open>glClearColor\<close>, so the colour plane is cleared to the clear colour the
  context started with, (0,0,0,0), and not to (0,0,0,1).
\<close>

theorem first_clear_uses_initial_colour:
  "case Renderer3 example_platform 3 2 2 process_start of
     Inl e \<Rightarrow> False
   | Inr (r, w) \<Rightarrow>
       clear_color w = (float_0_0, float_0_0, float_0_0, float_0_0) \<and>
       (case render_objects example_camera r w of
          Inl e \<Rightarrow> False
        | Inr w1 \<Rightarrow>
            issued w w1 = prologue r
            \<and> color_plane w1 = Uniform (float_0_0, float_0_0, float_0_0, float_0_0)
            \<and> color_plane w1 \<noteq> Uniform (float_0_0, float_0_0, float_0_0, float_1_0)
            \<and> depth_plane w1 = Uniform float_1_0
            \<and> viewport w1 = (0, 0, 2, 2)
            \<and> clear_color w1 = (float_0_0, float_0_0, float_0_0, float_1_0))"
proof -
  define r where "r = example_renderer\<lparr>vao := \<lparr>slots = []\<rparr>, scene := Some 3\<rparr>"
  define w where "w = example_world\<lparr>calls := butlast (calls example_world) @ [vao_build 3]\<rparr>"
  have c: "Renderer3 example_platform 3 2 2 process_start = Inr (r, w)"
    by (simp add: Renderer3_def initialize_def set_scene_def example_platform_def process_start_def
      example_renderer_def example_world_def int_mul_def INT_MIN_def INT_MAX_def
      make_unique_array_def window_hints_def issue_Cons issue_Nil call_def Let_def build_def
      empty_scene_def eval_nat_numeral r_def w_def)
  have b: "bound_to r w empty_scene"
    by (simp add: bound_to_def r_def w_def example_world_def empty_scene_def)
  have d: "drawable empty_scene"
    by (simp add: drawable_def empty_scene_def INT_MAX_def)
  from render_objects_ok [OF b d, of example_camera]
  obtain w1 where w1: "render_objects example_camera r w = Inr w1"
    "calls w1 = calls w @ prologue r @ spec_scene_calls r example_camera (objects empty_scene)"
    "clear_color w1 = (float_0_0, float_0_0, float_0_0, float_1_0)"
    "viewport w1 = (0, 0, width r, height r)"
    "color_plane w1 = Uniform (clear_color w)" "depth_plane w1 = Uniform (clear_depth w)"
    by (auto simp: empty_scene_def)
  have "clear_color w = (float_0_0, float_0_0, float_0_0, float_0_0)"
    "clear_depth w = float_1_0" "width r = 2" "height r = 2"
    by (simp_all add: w_def r_def example_world_def example_renderer_def)
  with c w1 show ?thesis
    by (simp add: issued_def spec_scene_calls_def empty_scene_def floats_differ floats_differ [symmetric])
qed

section \<open>The colour copy\<close>

lemma flip_index_bounds3:
  fixes h w c H W :: int
  assumes "0 \<le> h" "h < H" "0 \<le> w" "w < W" "0 \<le> c" "c < 3"
  shows "0 \<le> (H - h - 1) * W * 3 + w * 3 + c \<and> (H - h - 1) * W * 3 + w * 3 + c < W * H * 3"
proof -
  from flip_index_bounds [OF assms(1-4)]
  have "0 \<le> (H - h - 1) * W + w" "(H - h - 1) * W + w < W * H" by simp_all
  moreover have "(H - h - 1) * W * 3 + w * 3 + c = ((H - h - 1) * W + w) * 3 + c"
    by (simp add: algebra_simps)
  ultimately show ?thesis using assms(5,6) by simp
qed

lemma channel_inj:
  fixes i j c d :: nat
  assumes "c < 3" "d < 3"
  shows "i * 3 + c = j * 3 + d \<longleftrightarrow> i = j \<and> c = d"
  using assms by presburger

lemma pixel_inj:
  fixes h w c h1 w1 c1 W :: nat
  assumes "w < W" "w1 < W" "c < 3" "c1 < 3"
  shows "(h * W + w) * 3 + c = (h1 * W + w1) * 3 + c1 \<longleftrightarrow> h = h1 \<and> w = w1 \<and> c = c1"
  using channel_inj [OF assms(3,4), of "h * W + w" "h1 * W + w1"]
    row_major_inj [OF assms(1,2), of h h1] by blast

lemma pixel_bound:
  fixes h w c H W :: nat
  assumes "h < H" "w < W" "c < 3"
  shows "(h * W + w) * 3 + c < H * W * 3"
  using row_major_bound [OF assms(1,2)] assms(3) by simp

lemma rgb_assign_ok:
  assumes "0 \<le> h" "h < height r" "0 \<le> w" "w < width r" "0 \<le> c" "c < 3"
    and "length (color_buffer r) = nat (width r * height r * 3)"
    and "shape m = [nat (height r), nat (width r), 3]"
    and "length (elems m) = nat (height r) * nat (width r) * 3"
  shows "rgb_assign r h w c m =
           Inr (m\<lparr>elems := (elems m)[(nat h * nat (width r) + nat w) * 3 + nat c :=
                     ucast (color_buffer r ! nat ((height r - h - 1) * width r * 3 + w * 3 + c))]\<rparr>)"
proof -
  from flip_index_bounds3 [OF assms(1-6)]
  have "0 \<le> (height r - h - 1) * width r * 3 + w * 3 + c"
    "(height r - h - 1) * width r * 3 + w * 3 + c < width r * height r * 3" by simp_all
  then have f: "fetch (color_buffer r) ((height r - h - 1) * width r * 3 + w * 3 + c)
      = Inr (color_buffer r ! nat ((height r - h - 1) * width r * 3 + w * 3 + c))"
    using assms(7) by (simp add: fetch_def)
  have "nat h < nat (height r)" "nat w < nat (width r)" "nat c < 3" using assms by simp_all
  from pixel_bound [OF this]
  have "(nat h * nat (width r) + nat w) * 3 + nat c < length (elems m)"
    using assms(9) by simp
  then show ?thesis
    using f assms(8) by (simp add: rgb_assign_def store_def offset3_def)
qed

lemma rgb_cols_ok:
  assumes "0 \<le> h" "h < height r"
    and "length (color_buffer r) = nat (width r * height r * 3)"
    and "shape m = [nat (height r), nat (width r), 3]"
    and "length (elems m) = nat (height r) * nat (width r) * 3"
    and "0 \<le> w"
  shows "\<exists>m1. rgb_cols r h w m = Inr m1 \<and> shape m1 = shape m
           \<and> length (elems m1) = length (elems m)
           \<and> (\<forall>h1 w1 c1. 0 \<le> h1 \<and> h1 < height r \<and> 0 \<le> w1 \<and> w1 < width r
                  \<and> 0 \<le> c1 \<and> c1 < 3 \<longrightarrow>
                 elems m1 ! ((nat h1 * nat (width r) + nat w1) * 3 + nat c1) =
                   (if h1 = h \<and> w \<le> w1
                    then ucast (color_buffer r
                                  ! nat ((height r - h - 1) * width r * 3 + w1 * 3 + c1))
                    else elems m ! ((nat h1 * nat (width r) + nat w1) * 3 + nat c1)))"
  using assms(4-6)
proof (induction "nat (width r - w)" arbitrary: w m)
  case 0
  then have "\<not> w < width r" by simp
  then show ?case by (subst rgb_cols.simps) auto
next
  case (Suc k)
  then have lt: "w < width r" and k: "k = nat (width r - (w + 1))" by linarith+
  define src where "src c = (ucast (color_buffer r
      ! nat ((height r - h - 1) * width r * 3 + w * 3 + c)) :: GLuint)" for c
  define pos where "pos c = (nat h * nat (width r) + nat w) * 3 + nat c" for c :: int
  define ma where "ma = m\<lparr>elems := (elems m)[pos 0 := src 0]\<rparr>"
  define mb where "mb = ma\<lparr>elems := (elems ma)[pos 1 := src 1]\<rparr>"
  define mc where "mc = mb\<lparr>elems := (elems mb)[pos 2 := src 2]\<rparr>"
  have sa: "shape ma = [nat (height r), nat (width r), 3]"
    "length (elems ma) = nat (height r) * nat (width r) * 3"
    using Suc.prems by (simp_all add: ma_def)
  have sb: "shape mb = [nat (height r), nat (width r), 3]"
    "length (elems mb) = nat (height r) * nat (width r) * 3"
    using sa by (simp_all add: mb_def)
  have sc: "shape mc = [nat (height r), nat (width r), 3]"
    "length (elems mc) = nat (height r) * nat (width r) * 3" "0 \<le> w + 1"
    using sb Suc.prems by (simp_all add: mc_def)
  have a0: "rgb_assign r h w 0 m = Inr ma"
    using rgb_assign_ok [OF assms(1,2) Suc.prems(3) lt _ _ assms(3) Suc.prems(1,2), of 0]
    by (simp add: ma_def pos_def src_def)
  have a1: "rgb_assign r h w 1 ma = Inr mb"
    using rgb_assign_ok [OF assms(1,2) Suc.prems(3) lt _ _ assms(3) sa, of 1]
    by (simp add: mb_def pos_def src_def)
  have a2: "rgb_assign r h w 2 mb = Inr mc"
    using rgb_assign_ok [OF assms(1,2) Suc.prems(3) lt _ _ assms(3) sb, of 2]
    by (simp add: mc_def pos_def src_def)
  from Suc.hyps(1) [OF k sc] obtain m1 where m1: "rgb_cols r h (w + 1) mc = Inr m1"
    "shape m1 = shape mc" "length (elems m1) = length (elems mc)"
    "\<forall>h1 w1 c1. 0 \<le> h1 \<and> h1 < height r \<and> 0 \<le> w1 \<and> w1 < width r
                  \<and> 0 \<le> c1 \<and> c1 < 3 \<longrightarrow>
                 elems m1 ! ((nat h1 * nat (width r) + nat w1) * 3 + nat c1) =
                   (if h1 = h \<and> w + 1 \<le> w1
                    then ucast (color_buffer r
                                  ! nat ((height r - h - 1) * width r * 3 + w1 * 3 + c1))
                    else elems mc ! ((nat h1 * nat (width r) + nat w1) * 3 + nat c1))"
    by blast
  have step: "rgb_cols r h w m = Inr m1"
    using lt a0 a1 a2 m1(1) by (subst rgb_cols.simps) simp
  have pt: "elems m1 ! ((nat h1 * nat (width r) + nat w1) * 3 + nat c1) =
                   (if h1 = h \<and> w \<le> w1
                    then ucast (color_buffer r
                                  ! nat ((height r - h - 1) * width r * 3 + w1 * 3 + c1))
                    else elems m ! ((nat h1 * nat (width r) + nat w1) * 3 + nat c1))"
    if b: "0 \<le> h1" "h1 < height r" "0 \<le> w1" "w1 < width r" "0 \<le> c1" "c1 < 3" for h1 w1 c1
  proof -
    define P where "P = (nat h1 * nat (width r) + nat w1) * 3 + nat c1"
    have inj: "pos c = P \<longleftrightarrow> h = h1 \<and> w = w1 \<and> c = c1" if "0 \<le> c" "c < 3" for c
      unfolding pos_def P_def
      using pixel_inj [of "nat w" "nat (width r)" "nat w1" "nat c" "nat c1" "nat h" "nat h1"]
        b lt Suc.prems(3) assms(1) that by auto
    have d: "pos 0 = P \<longleftrightarrow> h = h1 \<and> w = w1 \<and> c1 = 0"
      "pos 1 = P \<longleftrightarrow> h = h1 \<and> w = w1 \<and> c1 = 1"
      "pos 2 = P \<longleftrightarrow> h = h1 \<and> w = w1 \<and> c1 = 2"
      using inj [of 0] inj [of 1] inj [of 2] by auto
    have posb: "pos c < length (elems m)" if "0 \<le> c" "c < 3" for c
      unfolding pos_def
      using pixel_bound [of "nat h" "nat (height r)" "nat w" "nat (width r)" "nat c"]
        assms(1,2) lt Suc.prems(2,3) that by simp
    have e: "elems mc ! P =
        (if pos 2 = P then src 2 else if pos 1 = P then src 1
         else if pos 0 = P then src 0 else elems m ! P)"
      using posb [of 0] posb [of 1] posb [of 2]
      by (simp add: mc_def mb_def ma_def nth_list_update)
    have c3: "c1 = 0 \<or> c1 = 1 \<or> c1 = 2" using b by linarith
    have old: "elems mc ! P = (if h1 = h \<and> w1 = w then src c1 else elems m ! P)"
      unfolding e d using c3 by auto
    from m1(4) b have "elems m1 ! P =
                   (if h1 = h \<and> w + 1 \<le> w1
                    then ucast (color_buffer r
                                  ! nat ((height r - h - 1) * width r * 3 + w1 * 3 + c1))
                    else elems mc ! P)" unfolding P_def by blast
    then have "elems m1 ! P =
                   (if h1 = h \<and> w \<le> w1
                    then ucast (color_buffer r
                                  ! nat ((height r - h - 1) * width r * 3 + w1 * 3 + c1))
                    else elems m ! P)"
      unfolding old by (auto simp add: src_def)
    then show ?thesis unfolding P_def .
  qed
  from step m1(2,3) sc Suc.prems pt show ?case by simp
qed

lemma rgb_rows_ok:
  assumes "length (color_buffer r) = nat (width r * height r * 3)"
    and "shape m = [nat (height r), nat (width r), 3]"
    and "length (elems m) = nat (height r) * nat (width r) * 3"
    and "0 \<le> h"
  shows "\<exists>m1. rgb_rows r h m = Inr m1 \<and> shape m1 = shape m
           \<and> length (elems m1) = length (elems m)
           \<and> (\<forall>h1 w1 c1. 0 \<le> h1 \<and> h1 < height r \<and> 0 \<le> w1 \<and> w1 < width r
                  \<and> 0 \<le> c1 \<and> c1 < 3 \<longrightarrow>
                 elems m1 ! ((nat h1 * nat (width r) + nat w1) * 3 + nat c1) =
                   (if h \<le> h1
                    then ucast (color_buffer r
                                  ! nat ((height r - h1 - 1) * width r * 3 + w1 * 3 + c1))
                    else elems m ! ((nat h1 * nat (width r) + nat w1) * 3 + nat c1)))"
  using assms(2-4)
proof (induction "nat (height r - h)" arbitrary: h m)
  case 0
  then have "\<not> h < height r" by simp
  then show ?case by (subst rgb_rows.simps) auto
next
  case (Suc k)
  then have lt: "h < height r" and k: "k = nat (height r - (h + 1))" by linarith+
  from rgb_cols_ok [OF Suc.prems(3) lt assms(1) Suc.prems(1,2), of 0]
  obtain m0 where m0: "rgb_cols r h 0 m = Inr m0" "shape m0 = shape m"
    "length (elems m0) = length (elems m)"
    "\<forall>h1 w1 c1. 0 \<le> h1 \<and> h1 < height r \<and> 0 \<le> w1 \<and> w1 < width r
                  \<and> 0 \<le> c1 \<and> c1 < 3 \<longrightarrow>
                 elems m0 ! ((nat h1 * nat (width r) + nat w1) * 3 + nat c1) =
                   (if h1 = h \<and> 0 \<le> w1
                    then ucast (color_buffer r
                                  ! nat ((height r - h - 1) * width r * 3 + w1 * 3 + c1))
                    else elems m ! ((nat h1 * nat (width r) + nat w1) * 3 + nat c1))"
    by auto
  have s0: "shape m0 = [nat (height r), nat (width r), 3]"
    "length (elems m0) = nat (height r) * nat (width r) * 3" "0 \<le> h + 1"
    using Suc.prems m0 by simp_all
  from Suc.hyps(1) [OF k s0] obtain m1 where m1: "rgb_rows r (h + 1) m0 = Inr m1"
    "shape m1 = shape m0" "length (elems m1) = length (elems m0)"
    "\<forall>h1 w1 c1. 0 \<le> h1 \<and> h1 < height r \<and> 0 \<le> w1 \<and> w1 < width r
                  \<and> 0 \<le> c1 \<and> c1 < 3 \<longrightarrow>
                 elems m1 ! ((nat h1 * nat (width r) + nat w1) * 3 + nat c1) =
                   (if h + 1 \<le> h1
                    then ucast (color_buffer r
                                  ! nat ((height r - h1 - 1) * width r * 3 + w1 * 3 + c1))
                    else elems m0 ! ((nat h1 * nat (width r) + nat w1) * 3 + nat c1))"
    by blast
  have step: "rgb_rows r h m = Inr m1"
    using lt m0(1) m1(1) by (subst rgb_rows.simps) simp
  have pt: "elems m1 ! ((nat h1 * nat (width r) + nat w1) * 3 + nat c1) =
                   (if h \<le> h1
                    then ucast (color_buffer r
                                  ! nat ((height r - h1 - 1) * width r * 3 + w1 * 3 + c1))
                    else elems m ! ((nat h1 * nat (width r) + nat w1) * 3 + nat c1))"
    if b: "0 \<le> h1" "h1 < height r" "0 \<le> w1" "w1 < width r" "0 \<le> c1" "c1 < 3" for h1 w1 c1
    using m1(4) m0(4) b by (cases "h1 = h") auto
  from step m1(2,3) m0(2,3) pt show ?case by simp
qed

section \<open>The render calls\<close>

lemma length_overwrite: "length (overwrite buf pixels) = length buf"
  by (simp add: overwrite_def)

lemma widen_keeps_value: "unat (ucast (b :: GLubyte) :: GLuint) = unat b"
proof -
  have "is_up (ucast :: GLubyte \<Rightarrow> GLuint)" by (simp add: is_up)
  then have "uint (ucast b :: GLuint) = uint b" by (rule uint_up_ucast)
  then show ?thesis by (simp only: unat_eq_nat_uint)
qed

lemma bound_to_frame: "scenes w1 = scenes w \<Longrightarrow> bound_to r w1 sc = bound_to r w sc"
  by (simp add: bound_to_def split: option.splits)

lemma closing_query: "closing (call (glfwWindowShouldClose h) w) = closing w"
  by (simp add: call_def)

lemma call_registers:
  "glfw_up (call c w) = glfw_up (effect c w)"
  "live (call c w) = live (effect c w)"
  "closing (call c w) = closing (effect c w)"
  "clear_color (call c w) = clear_color (effect c w)"
  "clear_depth (call c w) = clear_depth (effect c w)"
  "viewport (call c w) = viewport (effect c w)"
  "color_plane (call c w) = color_plane (effect c w)"
  "depth_plane (call c w) = depth_plane (effect c w)"
  "program_in_use (call c w) = program_in_use (effect c w)"
  by (simp_all add: call_def)

lemma closing_setup:
  "closing (issue (depth_pass_setup r) w) = closing w"
  "closing (issue (color_pass_setup r) w) = closing w"
  "closing (issue restore_defaults w) = closing w"
  by (simp_all add: depth_pass_setup_def color_pass_setup_def restore_defaults_def
      issue_Cons issue_Nil call_registers)

lemma render_depth_map_open:
  assumes "window r \<notin> closing w"
  shows "render_depth_map pixels camera np r w =
     (case render_objects camera r
             (issue (depth_pass_setup r) (call (glfwWindowShouldClose (window r)) w)) of
        Inl e \<Rightarrow> Inl e
      | Inr w2 \<Rightarrow>
          (case mutable_unchecked 2 np of
             Inl e \<Rightarrow> Inl e
           | Inr depth_map \<Rightarrow>
               (case depth_rows (r\<lparr>depth_buffer := overwrite (depth_buffer r) pixels\<rparr>) 0
                       depth_map of
                  Inl e \<Rightarrow> Inl e
                | Inr out \<Rightarrow>
                    Inr (r\<lparr>depth_buffer := overwrite (depth_buffer r) pixels\<rparr>,
                         issue restore_defaults
                           (call (glReadPixels 0 0 (width r) (height r)
                                    GL_DEPTH_COMPONENT GL_FLOAT) w2),
                         out))))"
  unfolding render_depth_map_def Let_def depth_pass_setup_def restore_defaults_def
  using assms by (simp only: closing_query if_False)

lemma depth_rows_flip:
  assumes "length (depth_buffer r) = nat (width r * height r)"
    and "shape m = [nat (height r), nat (width r)]"
    and "length (elems m) = nat (height r) * nat (width r)"
  shows "\<exists>out. depth_rows r 0 m = Inr out \<and> shape out = shape m
           \<and> length (elems out) = length (elems m)
           \<and> (\<forall>h x. 0 \<le> h \<and> h < height r \<and> 0 \<le> x \<and> x < width r \<longrightarrow>
                 elems out ! (nat h * nat (width r) + nat x) =
                   depth_buffer r ! nat ((height r - h - 1) * width r + x))"
proof -
  have z: "(0::int) \<le> 0" by simp
  from depth_rows_ok [OF assms z]
  obtain out where out: "depth_rows r 0 m = Inr out" "shape out = shape m"
    "length (elems out) = length (elems m)"
    and pt: "\<And>h1 w1. 0 \<le> h1 \<and> h1 < height r \<and> 0 \<le> w1 \<and> w1 < width r \<Longrightarrow>
                 elems out ! (nat h1 * nat (width r) + nat w1) =
                   (if 0 \<le> h1
                    then depth_buffer r ! nat ((height r - h1 - 1) * width r + w1)
                    else elems m ! (nat h1 * nat (width r) + nat w1))"
    by blast
  have "elems out ! (nat h * nat (width r) + nat x) =
                   depth_buffer r ! nat ((height r - h - 1) * width r + x)"
    if "0 \<le> h \<and> h < height r \<and> 0 \<le> x \<and> x < width r" for h x
    using pt [OF that] that by simp
  with out show ?thesis by blast
qed

lemma rgb_rows_flip:
  assumes "length (color_buffer r) = nat (width r * height r * 3)"
    and "shape m = [nat (height r), nat (width r), 3]"
    and "length (elems m) = nat (height r) * nat (width r) * 3"
  shows "\<exists>out. rgb_rows r 0 m = Inr out \<and> shape out = shape m
           \<and> length (elems out) = length (elems m)
           \<and> (\<forall>h x c. 0 \<le> h \<and> h < height r \<and> 0 \<le> x \<and> x < width r
                  \<and> 0 \<le> c \<and> c < 3 \<longrightarrow>
                 elems out ! ((nat h * nat (width r) + nat x) * 3 + nat c) =
                   ucast (color_buffer r ! nat ((height r - h - 1) * width r * 3 + x * 3 + c)))"
proof -
  have z: "(0::int) \<le> 0" by simp
  from rgb_rows_ok [OF assms z]
  obtain out where out: "rgb_rows r 0 m = Inr out" "shape out = shape m"
    "length (elems out) = length (elems m)"
    and pt: "\<And>h1 w1 c1. 0 \<le> h1 \<and> h1 < height r \<and> 0 \<le> w1 \<and> w1 < width r
                  \<and> 0 \<le> c1 \<and> c1 < 3 \<Longrightarrow>
                 elems out ! ((nat h1 * nat (width r) + nat w1) * 3 + nat c1) =
                   (if 0 \<le> h1
                    then ucast (color_buffer r
                                  ! nat ((height r - h1 - 1) * width r * 3 + w1 * 3 + c1))
                    else elems m ! ((nat h1 * nat (width r) + nat w1) * 3 + nat c1))"
    by blast
  have "elems out ! ((nat h * nat (width r) + nat x) * 3 + nat c) =
                   ucast (color_buffer r ! nat ((height r - h - 1) * width r * 3 + x * 3 + c))"
    if "0 \<le> h \<and> h < height r \<and> 0 \<le> x \<and> x < width r \<and> 0 \<le> c \<and> c < 3" for h x c
    using pt [OF that] that by simp
  with out show ?thesis by blast
qed

lemma render_depth_map_ok:
  assumes "window r \<notin> closing w" "bound_to r w sc" "drawable sc"
    and "length (depth_buffer r) = nat (width r * height r)"
    and "shape np = [nat (height r), nat (width r)]"
    and "length (elems np) = nat (height r) * nat (width r)"
  shows "\<exists>w1 out. render_depth_map pixels camera np r w
             = Inr (r\<lparr>depth_buffer := overwrite (depth_buffer r) pixels\<rparr>, w1, out)
           \<and> calls w1 = calls w @ depth_pass_calls r camera (objects sc)
           \<and> scenes w1 = scenes w \<and> closing w1 = closing w
           \<and> shape out = shape np \<and> length (elems out) = length (elems np)
           \<and> (\<forall>h x. 0 \<le> h \<and> h < height r \<and> 0 \<le> x \<and> x < width r \<longrightarrow>
                 elems out ! (nat h * nat (width r) + nat x) =
                   overwrite (depth_buffer r) pixels ! nat ((height r - h - 1) * width r + x))"
proof -
  define w0 where "w0 = issue (depth_pass_setup r) (call (glfwWindowShouldClose (window r)) w)"
  define r1 where "r1 = r\<lparr>depth_buffer := overwrite (depth_buffer r) pixels\<rparr>"
  have f0: "scenes w0 = scenes w" "closing w0 = closing w"
    "calls w0 = calls w @ glfwWindowShouldClose (window r) # depth_pass_setup r"
    unfolding w0_def
    by (simp_all add: scenes_issue scenes_call calls_issue calls_call closing_setup closing_query)
  from assms(2) bound_to_frame [OF f0(1)] have b0: "bound_to r w0 sc" by simp
  from render_objects_ok [OF b0 assms(3), of camera]
  obtain w2 where w2: "render_objects camera r w0 = Inr w2"
    "calls w2 = calls w0 @ prologue r @ spec_scene_calls r camera (objects sc)"
    "scenes w2 = scenes w0" "closing w2 = closing w0"
    by blast
  define w3 where "w3 = issue restore_defaults
      (call (glReadPixels 0 0 (width r) (height r) GL_DEPTH_COMPONENT GL_FLOAT) w2)"
  have f3: "scenes w3 = scenes w2" "closing w3 = closing w2"
    "calls w3 = calls w2 @ glReadPixels 0 0 (width r) (height r) GL_DEPTH_COMPONENT GL_FLOAT
                                # restore_defaults"
    unfolding w3_def
    by (simp_all add: scenes_issue scenes_call calls_issue calls_call closing_setup
        call_registers)
  have l1: "length (depth_buffer r1) = nat (width r1 * height r1)"
    "shape np = [nat (height r1), nat (width r1)]"
    "length (elems np) = nat (height r1) * nat (width r1)"
    using assms(4-6) by (simp_all add: r1_def length_overwrite)
  from depth_rows_flip [OF l1]
  obtain out where out: "depth_rows r1 0 np = Inr out" "shape out = shape np"
    "length (elems out) = length (elems np)"
    "\<forall>h x. 0 \<le> h \<and> h < height r1 \<and> 0 \<le> x \<and> x < width r1 \<longrightarrow>
                 elems out ! (nat h * nat (width r1) + nat x) =
                   depth_buffer r1 ! nat ((height r1 - h - 1) * width r1 + x)"
    by blast
  have mu: "mutable_unchecked 2 np = Inr np"
    using assms(5) by (simp add: mutable_unchecked_def)
  have "render_depth_map pixels camera np r w = Inr (r1, w3, out)"
    unfolding render_depth_map_open [OF assms(1)] w0_def [symmetric] r1_def [symmetric]
    using w2(1) mu out(1) by (simp add: w3_def)
  moreover have "calls w3 = calls w @ depth_pass_calls r camera (objects sc)"
    by (simp add: f3 w2 f0 depth_pass_calls_def)
  moreover have "elems out ! (nat h * nat (width r) + nat x) =
                   overwrite (depth_buffer r) pixels ! nat ((height r - h - 1) * width r + x)"
    if "0 \<le> h" "h < height r" "0 \<le> x" "x < width r" for h x
    using out(4) that by (simp add: r1_def)
  ultimately show ?thesis
    using out(2,3) f3 w2 f0 unfolding r1_def by auto
qed

lemma render_open:
  assumes "window r \<notin> closing w"
  shows "render pixels camera np r w =
     (case render_objects camera r
             (issue (color_pass_setup r) (call (glfwWindowShouldClose (window r)) w)) of
        Inl e \<Rightarrow> Inl e
      | Inr w2 \<Rightarrow>
          (case mutable_unchecked 3 np of
             Inl e \<Rightarrow> Inl e
           | Inr rgb_map \<Rightarrow>
               (case rgb_rows (r\<lparr>color_buffer := overwrite (color_buffer r) pixels\<rparr>) 0
                       rgb_map of
                  Inl e \<Rightarrow> Inl e
                | Inr out \<Rightarrow>
                    Inr (r\<lparr>color_buffer := overwrite (color_buffer r) pixels\<rparr>,
                         issue restore_defaults
                           (call (glReadPixels 0 0 (width r) (height r)
                                    GL_RGB GL_UNSIGNED_BYTE) w2),
                         out))))"
  unfolding render_def Let_def color_pass_setup_def restore_defaults_def
  using assms by (simp only: closing_query if_False)

lemma render_ok:
  assumes "window r \<notin> closing w" "bound_to r w sc" "drawable sc"
    and "length (color_buffer r) = nat (width r * height r * 3)"
    and "shape np = [nat (height r), nat (width r), 3]"
    and "length (elems np) = nat (height r) * nat (width r) * 3"
  shows "\<exists>w1 out. render pixels camera np r w
             = Inr (r\<lparr>color_buffer := overwrite (color_buffer r) pixels\<rparr>, w1, out)
           \<and> calls w1 = calls w @ color_pass_calls r camera (objects sc)
           \<and> scenes w1 = scenes w \<and> closing w1 = closing w
           \<and> shape out = shape np \<and> length (elems out) = length (elems np)
           \<and> (\<forall>h x c. 0 \<le> h \<and> h < height r \<and> 0 \<le> x \<and> x < width r
                  \<and> 0 \<le> c \<and> c < 3 \<longrightarrow>
                 elems out ! ((nat h * nat (width r) + nat x) * 3 + nat c) =
                   ucast (overwrite (color_buffer r) pixels
                            ! nat ((height r - h - 1) * width r * 3 + x * 3 + c)))"
proof -
  define w0 where "w0 = issue (color_pass_setup r) (call (glfwWindowShouldClose (window r)) w)"
  define r1 where "r1 = r\<lparr>color_buffer := overwrite (color_buffer r) pixels\<rparr>"
  have f0: "scenes w0 = scenes w" "closing w0 = closing w"
    "calls w0 = calls w @ glfwWindowShouldClose (window r) # color_pass_setup r"
    unfolding w0_def
    by (simp_all add: scenes_issue scenes_call calls_issue calls_call closing_setup closing_query)
  from assms(2) bound_to_frame [OF f0(1)] have b0: "bound_to r w0 sc" by simp
  from render_objects_ok [OF b0 assms(3), of camera]
  obtain w2 where w2: "render_objects camera r w0 = Inr w2"
    "calls w2 = calls w0 @ prologue r @ spec_scene_calls r camera (objects sc)"
    "scenes w2 = scenes w0" "closing w2 = closing w0"
    by blast
  define w3 where "w3 = issue restore_defaults
      (call (glReadPixels 0 0 (width r) (height r) GL_RGB GL_UNSIGNED_BYTE) w2)"
  have f3: "scenes w3 = scenes w2" "closing w3 = closing w2"
    "calls w3 = calls w2 @ glReadPixels 0 0 (width r) (height r) GL_RGB GL_UNSIGNED_BYTE
                                # restore_defaults"
    unfolding w3_def
    by (simp_all add: scenes_issue scenes_call calls_issue calls_call closing_setup
        call_registers)
  have l1: "length (color_buffer r1) = nat (width r1 * height r1 * 3)"
    "shape np = [nat (height r1), nat (width r1), 3]"
    "length (elems np) = nat (height r1) * nat (width r1) * 3"
    using assms(4-6) by (simp_all add: r1_def length_overwrite)
  from rgb_rows_flip [OF l1]
  obtain out where out: "rgb_rows r1 0 np = Inr out" "shape out = shape np"
    "length (elems out) = length (elems np)"
    "\<forall>h x c. 0 \<le> h \<and> h < height r1 \<and> 0 \<le> x \<and> x < width r1 \<and> 0 \<le> c \<and> c < 3 \<longrightarrow>
                 elems out ! ((nat h * nat (width r1) + nat x) * 3 + nat c) =
                   ucast (color_buffer r1 ! nat ((height r1 - h - 1) * width r1 * 3 + x * 3 + c))"
    by blast
  have mu: "mutable_unchecked 3 np = Inr np"
    using assms(5) by (simp add: mutable_unchecked_def)
  have "render pixels camera np r w = Inr (r1, w3, out)"
    unfolding render_open [OF assms(1)] w0_def [symmetric] r1_def [symmetric]
    using w2(1) mu out(1) by (simp add: w3_def)
  moreover have "calls w3 = calls w @ color_pass_calls r camera (objects sc)"
    by (simp add: f3 w2 f0 color_pass_calls_def)
  moreover have "elems out ! ((nat h * nat (width r) + nat x) * 3 + nat c) =
                   ucast (overwrite (color_buffer r) pixels
                            ! nat ((height r - h - 1) * width r * 3 + x * 3 + c))"
    if "0 \<le> h" "h < height r" "0 \<le> x" "x < width r" "0 \<le> c" "c < 3" for h x c
    using out(4) that by (simp add: r1_def)
  ultimately show ?thesis
    using out(2,3) f3 w2 f0 unfolding r1_def by auto
qed

text \<open>
  Claim C1. A \<open>render_depth_map\<close> or \<open>render\<close> call that does not take the close
  branch, on a renderer bound to a drawable scene, with buffers of the size the
  constructor gives them and a caller's array of shape [height, width] (or
  [height, width, 3]), returns; the internal buffer then holds the readback, and
  element (h, w) of the output (for colour, each channel c of it) is the element of
  that buffer at row height-1-h, column w (and channel c): the same float, or the
  byte widened to the element type of the array, its value unchanged.
\<close>

theorem output_is_vertical_flip:
  assumes "window r \<notin> closing w" "bound_to r w sc" "drawable sc"
    and "length (depth_buffer r) = nat (width r * height r)"
    and "length (color_buffer r) = nat (width r * height r * 3)"
    and "shape np_depth_map = [nat (height r), nat (width r)]"
    and "length (elems np_depth_map) = nat (height r) * nat (width r)"
    and "shape np_rgb_map = [nat (height r), nat (width r), 3]"
    and "length (elems np_rgb_map) = nat (height r) * nat (width r) * 3"
  shows "(\<exists>r1 w1 out.
            render_depth_map pixels_d camera np_depth_map r w = Inr (r1, w1, out)
            \<and> depth_buffer r1 = overwrite (depth_buffer r) pixels_d
            \<and> shape out = shape np_depth_map
            \<and> (\<forall>h x. 0 \<le> h \<and> h < height r \<and> 0 \<le> x \<and> x < width r \<longrightarrow>
                  elems out ! offset2 out h x =
                    depth_buffer r1 ! nat ((height r - 1 - h) * width r + x)))
       \<and> (\<exists>r1 w1 out.
            render pixels camera np_rgb_map r w = Inr (r1, w1, out)
            \<and> color_buffer r1 = overwrite (color_buffer r) pixels
            \<and> shape out = shape np_rgb_map
            \<and> (\<forall>h x c. 0 \<le> h \<and> h < height r \<and> 0 \<le> x \<and> x < width r
                   \<and> 0 \<le> c \<and> c < 3 \<longrightarrow>
                  elems out ! offset3 out h x c =
                    ucast (color_buffer r1 ! nat (((height r - 1 - h) * width r + x) * 3 + c))
                  \<and> unat (elems out ! offset3 out h x c) =
                    unat (color_buffer r1 ! nat (((height r - 1 - h) * width r + x) * 3 + c))))"
proof -
  from render_depth_map_ok [OF assms(1-4,6,7), of pixels_d camera]
  obtain w1 out where d: "render_depth_map pixels_d camera np_depth_map r w
             = Inr (r\<lparr>depth_buffer := overwrite (depth_buffer r) pixels_d\<rparr>, w1, out)"
    "shape out = shape np_depth_map"
    "\<forall>h x. 0 \<le> h \<and> h < height r \<and> 0 \<le> x \<and> x < width r \<longrightarrow>
                 elems out ! (nat h * nat (width r) + nat x) =
                   overwrite (depth_buffer r) pixels_d ! nat ((height r - h - 1) * width r + x)"
    by blast
  have dp: "elems out ! offset2 out h x =
      overwrite (depth_buffer r) pixels_d ! nat ((height r - 1 - h) * width r + x)"
    if b: "0 \<le> h \<and> h < height r \<and> 0 \<le> x \<and> x < width r" for h x
  proof -
    have e: "height r - 1 - h = height r - h - 1" by simp
    from d(3) b show ?thesis unfolding e by (simp add: offset2_def d(2) assms(6))
  qed
  from render_ok [OF assms(1-3,5,8,9), of pixels camera]
  obtain w2 out2 where c: "render pixels camera np_rgb_map r w
             = Inr (r\<lparr>color_buffer := overwrite (color_buffer r) pixels\<rparr>, w2, out2)"
    "shape out2 = shape np_rgb_map"
    "\<forall>h x c. 0 \<le> h \<and> h < height r \<and> 0 \<le> x \<and> x < width r
                  \<and> 0 \<le> c \<and> c < 3 \<longrightarrow>
                 elems out2 ! ((nat h * nat (width r) + nat x) * 3 + nat c) =
                   ucast (overwrite (color_buffer r) pixels
                            ! nat ((height r - h - 1) * width r * 3 + x * 3 + c))"
    by blast
  have cp: "elems out2 ! offset3 out2 h x c =
      ucast (overwrite (color_buffer r) pixels ! nat (((height r - 1 - h) * width r + x) * 3 + c))"
    if b: "0 \<le> h \<and> h < height r \<and> 0 \<le> x \<and> x < width r \<and> 0 \<le> c \<and> c < 3" for h x c
  proof -
    have e: "((height r - 1 - h) * width r + x) * 3 + c
        = (height r - h - 1) * width r * 3 + x * 3 + c" by (simp add: algebra_simps)
    from c(3) b show ?thesis unfolding e by (simp add: offset3_def c(2) assms(8))
  qed
  from d(1,2) dp c(1,2) cp show ?thesis
    by (simp add: widen_keeps_value)
qed

section \<open>What an operation that returns has done\<close>

lemma uses_only_Nil: "uses_only p []"
  by (simp add: uses_only_def)

lemma uses_only_append: "uses_only p (cs @ ds) \<longleftrightarrow> uses_only p cs \<and> uses_only p ds"
  by (auto simp add: uses_only_def)

lemma uses_only_fixed:
  "uses_only p (prologue r)" "uses_only p restore_defaults"
  "uses_only (main_program r) (depth_pass_setup r)"
  "uses_only (main_program r) (color_pass_setup r)"
  by (simp_all add: uses_only_def prologue_def restore_defaults_def depth_pass_setup_def
      color_pass_setup_def)


lemma render_objects_loop_result:
  assumes "render_objects_loop r camera objs i w = Inr w1"
  shows "scenes w1 = scenes w
       \<and> (\<exists>cs. calls w1 = calls w @ cs \<and> uses_only (main_program r) cs)"
  using assms
proof (induction "nat (int (length objs) - i)" arbitrary: i w)
  case 0
  then have "\<not> i < int (length objs)" by simp
  with "0.prems" have "w1 = w" by (subst (asm) render_objects_loop.simps) simp
  then show ?case by (simp add: uses_only_Nil)
next
  case (Suc k)
  then have lt: "i < int (length objs)" and k: "k = nat (int (length objs) - (i + 1))"
    by linarith+
  define cs0 where "cs0 =
     [vao_bind_object i,
      uniform_matrix (main_program r) 0 (model_matrix (objs ! nat i)),
      uniform_matrix (main_program r) 1 (view_matrix camera),
      uniform_matrix (main_program r) 2 (projection_matrix camera),
      uniform_float (main_program r) 3
        (if smoothness (objs ! nat i) then float_1_0 else float_0_0)]"
  from Suc.prems lt have "\<exists>n. render_objects_loop r camera objs (i + 1)
      (call (glDrawArrays GL_TRIANGLES 0 n) (issue cs0 w)) = Inr w1"
    by (subst (asm) render_objects_loop.simps)
       (auto simp add: Let_def cs0_def bind_object_def issue_Cons issue_Nil
          split: if_splits sum.splits)
  then obtain n where n: "render_objects_loop r camera objs (i + 1)
      (call (glDrawArrays GL_TRIANGLES 0 n) (issue cs0 w)) = Inr w1" by blast
  from Suc.hyps(1) [OF k n] obtain cs where cs:
    "scenes w1 = scenes (call (glDrawArrays GL_TRIANGLES 0 n) (issue cs0 w))"
    "calls w1 = calls (call (glDrawArrays GL_TRIANGLES 0 n) (issue cs0 w)) @ cs"
    "uses_only (main_program r) cs" by blast
  have u: "uses_only (main_program r) (cs0 @ [glDrawArrays GL_TRIANGLES 0 n])"
    by (simp add: uses_only_def cs0_def)
  from cs(2) have "calls w1 = calls w @ (cs0 @ [glDrawArrays GL_TRIANGLES 0 n]) @ cs"
    by (simp add: calls_call calls_issue)
  moreover from u cs(3) have "uses_only (main_program r) ((cs0 @ [glDrawArrays GL_TRIANGLES 0 n]) @ cs)"
    by (simp only: uses_only_append)
  ultimately show ?case using cs(1) by (auto simp add: scenes_call scenes_issue)
qed

lemma render_objects_result:
  assumes "render_objects camera r w = Inr w1"
  shows "scenes w1 = scenes w
       \<and> (\<exists>cs. calls w1 = calls w @ cs \<and> uses_only (main_program r) cs)"
proof -
  from assms obtain sc :: Scene where l: "render_objects_loop r camera (objects sc) 0
      (issue (prologue r) w) = Inr w1"
    by (auto simp add: render_objects_def Let_def prologue_def split: option.splits)
  from render_objects_loop_result [OF l] obtain cs where cs:
    "scenes w1 = scenes (issue (prologue r) w)"
    "calls w1 = calls (issue (prologue r) w) @ cs" "uses_only (main_program r) cs" by blast
  from cs(2) have "calls w1 = calls w @ prologue r @ cs" by (simp add: calls_issue)
  moreover from cs(3) have "uses_only (main_program r) (prologue r @ cs)"
    by (simp add: uses_only_append uses_only_fixed)
  ultimately show ?thesis using cs(1) by (auto simp add: scenes_issue)
qed

lemma close_branch:
  assumes "window r \<in> closing w"
  shows "render pixels camera np r w
           = Inr (r, issue [glfwDestroyWindow (window r), glfwTerminate]
                       (call (glfwWindowShouldClose (window r)) w), np)"
    "render_depth_map pixels_d camera np_d r w
           = Inr (r, issue [glfwDestroyWindow (window r), glfwTerminate]
                       (call (glfwWindowShouldClose (window r)) w), np_d)"
  using assms by (simp_all add: render_def render_depth_map_def Let_def closing_query)

lemma render_depth_map_result:
  assumes "render_depth_map pixels camera np r w = Inr (r1, w1, out)"
  shows "(r1 = r \<or> r1 = r\<lparr>depth_buffer := overwrite (depth_buffer r) pixels\<rparr>)
       \<and> scenes w1 = scenes w
       \<and> (\<exists>cs. calls w1 = calls w @ cs \<and> uses_only (main_program r) cs
              \<and> (window r \<notin> closing w \<longrightarrow> program_use (main_program r) \<in> set cs))"
proof (cases "window r \<in> closing w")
  case True
  from assms close_branch(2) [OF True, of pixels camera np]
  have "r1 = r" "w1 = issue [glfwDestroyWindow (window r), glfwTerminate]
                       (call (glfwWindowShouldClose (window r)) w)" by auto
  then have "r1 = r" "scenes w1 = scenes w"
    "calls w1 = calls w @ [glfwWindowShouldClose (window r), glfwDestroyWindow (window r),
       glfwTerminate]"
    by (simp_all add: scenes_issue scenes_call calls_issue calls_call)
  moreover have "uses_only (main_program r) [glfwWindowShouldClose (window r),
      glfwDestroyWindow (window r), glfwTerminate]" by (simp add: uses_only_def)
  ultimately show ?thesis using True by blast
next
  case False
  define w0 where "w0 = issue (depth_pass_setup r) (call (glfwWindowShouldClose (window r)) w)"
  from assms obtain w2 where w2: "render_objects camera r w0 = Inr w2"
    and r1: "r1 = r\<lparr>depth_buffer := overwrite (depth_buffer r) pixels\<rparr>"
    and w1: "w1 = issue restore_defaults
               (call (glReadPixels 0 0 (width r) (height r) GL_DEPTH_COMPONENT GL_FLOAT) w2)"
    unfolding render_depth_map_open [OF False] w0_def [symmetric]
    by (auto split: sum.splits)
  from render_objects_result [OF w2] obtain cs where cs:
    "scenes w2 = scenes w0" "calls w2 = calls w0 @ cs" "uses_only (main_program r) cs" by blast
  let ?all = "glfwWindowShouldClose (window r) # depth_pass_setup r @ cs
       @ glReadPixels 0 0 (width r) (height r) GL_DEPTH_COMPONENT GL_FLOAT # restore_defaults"
  have "calls w1 = calls w @ ?all"
    by (simp add: w1 calls_issue calls_call cs(2) w0_def)
  moreover have "uses_only (main_program r) ?all"
    using cs(3) uses_only_fixed(2) [of "main_program r"] uses_only_fixed(3) [of r]
    by (auto simp add: uses_only_def)
  moreover have "program_use (main_program r) \<in> set ?all"
    by (simp add: depth_pass_setup_def)
  moreover have "scenes w1 = scenes w"
    by (simp add: w1 scenes_issue scenes_call cs(1) w0_def)
  ultimately show ?thesis using r1 by blast
qed

lemma render_result:
  assumes "render pixels camera np r w = Inr (r1, w1, out)"
  shows "(r1 = r \<or> r1 = r\<lparr>color_buffer := overwrite (color_buffer r) pixels\<rparr>)
       \<and> scenes w1 = scenes w
       \<and> (\<exists>cs. calls w1 = calls w @ cs \<and> uses_only (main_program r) cs
              \<and> (window r \<notin> closing w \<longrightarrow> program_use (main_program r) \<in> set cs))"
proof (cases "window r \<in> closing w")
  case True
  from assms close_branch(1) [OF True, of pixels camera np]
  have "r1 = r" "w1 = issue [glfwDestroyWindow (window r), glfwTerminate]
                       (call (glfwWindowShouldClose (window r)) w)" by auto
  then have "r1 = r" "scenes w1 = scenes w"
    "calls w1 = calls w @ [glfwWindowShouldClose (window r), glfwDestroyWindow (window r),
       glfwTerminate]"
    by (simp_all add: scenes_issue scenes_call calls_issue calls_call)
  moreover have "uses_only (main_program r) [glfwWindowShouldClose (window r),
      glfwDestroyWindow (window r), glfwTerminate]" by (simp add: uses_only_def)
  ultimately show ?thesis using True by blast
next
  case False
  define w0 where "w0 = issue (color_pass_setup r) (call (glfwWindowShouldClose (window r)) w)"
  from assms obtain w2 where w2: "render_objects camera r w0 = Inr w2"
    and r1: "r1 = r\<lparr>color_buffer := overwrite (color_buffer r) pixels\<rparr>"
    and w1: "w1 = issue restore_defaults
               (call (glReadPixels 0 0 (width r) (height r) GL_RGB GL_UNSIGNED_BYTE) w2)"
    unfolding render_open [OF False] w0_def [symmetric]
    by (auto split: sum.splits)
  from render_objects_result [OF w2] obtain cs where cs:
    "scenes w2 = scenes w0" "calls w2 = calls w0 @ cs" "uses_only (main_program r) cs" by blast
  let ?all = "glfwWindowShouldClose (window r) # color_pass_setup r @ cs
       @ glReadPixels 0 0 (width r) (height r) GL_RGB GL_UNSIGNED_BYTE # restore_defaults"
  have "calls w1 = calls w @ ?all"
    by (simp add: w1 calls_issue calls_call cs(2) w0_def)
  moreover have "uses_only (main_program r) ?all"
    using cs(3) uses_only_fixed(2) [of "main_program r"] uses_only_fixed(4) [of r]
    by (auto simp add: uses_only_def)
  moreover have "program_use (main_program r) \<in> set ?all"
    by (simp add: color_pass_setup_def)
  moreover have "scenes w1 = scenes w"
    by (simp add: w1 scenes_issue scenes_call cs(1) w0_def)
  ultimately show ?thesis using r1 by blast
qed

lemma set_scene_result:
  assumes "set_scene p r w = Inr (r1, w1)"
  shows "\<exists>sc. scenes w p = Some sc \<and> r1 = r\<lparr>scene := Some p, vao := build sc (vao r)\<rparr>
           \<and> scenes w1 = scenes w
           \<and> calls w1 = calls w @ [glfwMakeContextCurrent (window r), vao_build p]"
  using assms
  by (auto simp add: set_scene_def Let_def scenes_call calls_call split: option.splits)

lemma set_scene_ok:
  assumes "scenes w p = Some sc"
  shows "\<exists>w1. set_scene p r w = Inr (r\<lparr>scene := Some p, vao := build sc (vao r)\<rparr>, w1)
           \<and> scenes w1 = scenes w \<and> closing w1 = closing w
           \<and> calls w1 = calls w @ [glfwMakeContextCurrent (window r), vao_build p]"
  using assms
  by (simp add: set_scene_def Let_def scenes_call calls_call call_registers)

lemma perform_result:
  assumes "perform op (r, w) = Inr (r1, w1)"
  shows "width r1 = width r \<and> height r1 = height r
       \<and> length (depth_buffer r1) = length (depth_buffer r)
       \<and> length (color_buffer r1) = length (color_buffer r)
       \<and> window r1 = window r
       \<and> main_program r1 = main_program r \<and> depth_program r1 = depth_program r
       \<and> scenes w1 = scenes w
       \<and> (\<exists>cs. calls w1 = calls w @ cs \<and> uses_only (main_program r) cs)
       \<and> (if sets_scene op
          then \<exists>p sc. scene r1 = Some p \<and> scenes w p = Some sc \<and> slots (vao r1) = objects sc
          else scene r1 = scene r \<and> vao r1 = vao r)"
proof (cases op)
  case (Set_scene p)
  with assms have "set_scene p r w = Inr (r1, w1)" by simp
  from set_scene_result [OF this] obtain sc where sc: "scenes w p = Some sc"
    "r1 = r\<lparr>scene := Some p, vao := build sc (vao r)\<rparr>" "scenes w1 = scenes w"
    "calls w1 = calls w @ [glfwMakeContextCurrent (window r), vao_build p]" by blast
  have "uses_only (main_program r) [glfwMakeContextCurrent (window r), vao_build p]"
    by (simp add: uses_only_def)
  with sc Set_scene show ?thesis by (auto simp add: build_def)
next
  case (Render_objects camera)
  with assms have a: "render_objects camera r w = Inr w1" "r1 = r"
    by (auto split: sum.splits)
  from render_objects_result [OF a(1)] a(2) Render_objects show ?thesis by auto
next
  case (Render_depth_map pixels camera a)
  with assms obtain out where "render_depth_map pixels camera a r w = Inr (r1, w1, out)"
    by (auto split: sum.splits)
  from render_depth_map_result [OF this] Render_depth_map show ?thesis
    by (auto simp add: length_overwrite)
next
  case (Render pixels camera a)
  with assms obtain out where "render pixels camera a r w = Inr (r1, w1, out)"
    by (auto split: sum.splits)
  from render_result [OF this] Render show ?thesis
    by (auto simp add: length_overwrite)
next
  case (Render_depth_map_scene pixels p camera a)
  with assms obtain r0 w0 out where s: "set_scene p r w = Inr (r0, w0)"
    and d: "render_depth_map pixels camera a r0 w0 = Inr (r1, w1, out)"
    by (auto simp add: render_depth_map_scene_def split: sum.splits)
  from set_scene_result [OF s] obtain sc where sc: "scenes w p = Some sc"
    "r0 = r\<lparr>scene := Some p, vao := build sc (vao r)\<rparr>" "scenes w0 = scenes w"
    "calls w0 = calls w @ [glfwMakeContextCurrent (window r), vao_build p]" by blast
  from render_depth_map_result [OF d] obtain cs where cs:
    "r1 = r0 \<or> r1 = r0\<lparr>depth_buffer := overwrite (depth_buffer r0) pixels\<rparr>"
    "scenes w1 = scenes w0" "calls w1 = calls w0 @ cs" "uses_only (main_program r0) cs"
    by blast
  have "calls w1 = calls w @ [glfwMakeContextCurrent (window r), vao_build p] @ cs"
    using cs(3) sc(4) by simp
  moreover have "uses_only (main_program r) ([glfwMakeContextCurrent (window r), vao_build p] @ cs)"
    using cs(4) sc(2) by (simp add: uses_only_def)
  ultimately have "\<exists>cs. calls w1 = calls w @ cs \<and> uses_only (main_program r) cs" by blast
  with cs(1,2) sc(1,2,3) Render_depth_map_scene show ?thesis
    by (auto simp add: length_overwrite build_def)
next
  case (Render_scene pixels p camera a)
  with assms obtain r0 w0 out where s: "set_scene p r w = Inr (r0, w0)"
    and d: "render pixels camera a r0 w0 = Inr (r1, w1, out)"
    by (auto simp add: render_scene_def split: sum.splits)
  from set_scene_result [OF s] obtain sc where sc: "scenes w p = Some sc"
    "r0 = r\<lparr>scene := Some p, vao := build sc (vao r)\<rparr>" "scenes w0 = scenes w"
    "calls w0 = calls w @ [glfwMakeContextCurrent (window r), vao_build p]" by blast
  from render_result [OF d] obtain cs where cs:
    "r1 = r0 \<or> r1 = r0\<lparr>color_buffer := overwrite (color_buffer r0) pixels\<rparr>"
    "scenes w1 = scenes w0" "calls w1 = calls w0 @ cs" "uses_only (main_program r0) cs"
    by blast
  have "calls w1 = calls w @ [glfwMakeContextCurrent (window r), vao_build p] @ cs"
    using cs(3) sc(4) by simp
  moreover have "uses_only (main_program r) ([glfwMakeContextCurrent (window r), vao_build p] @ cs)"
    using cs(4) sc(2) by (simp add: uses_only_def)
  ultimately have "\<exists>cs. calls w1 = calls w @ cs \<and> uses_only (main_program r) cs" by blast
  with cs(1,2) sc(1,2,3) Render_scene show ?thesis
    by (auto simp add: length_overwrite build_def)
qed

lemma run_result:
  assumes "run ops (r, w) = Inr (r2, w2)"
  shows "width r2 = width r \<and> height r2 = height r
       \<and> length (depth_buffer r2) = length (depth_buffer r)
       \<and> length (color_buffer r2) = length (color_buffer r)
       \<and> window r2 = window r
       \<and> main_program r2 = main_program r \<and> depth_program r2 = depth_program r
       \<and> scenes w2 = scenes w
       \<and> (\<exists>cs. calls w2 = calls w @ cs \<and> uses_only (main_program r) cs)"
  using assms
proof (induction ops arbitrary: r w)
  case Nil
  then show ?case by (simp add: uses_only_Nil)
next
  case (Cons op ops)
  then obtain r1 w1 where p: "perform op (r, w) = Inr (r1, w1)"
    and q: "run ops (r1, w1) = Inr (r2, w2)"
    by (auto split: sum.splits)
  from perform_result [OF p] obtain cs where a:
    "width r1 = width r \<and> height r1 = height r
       \<and> length (depth_buffer r1) = length (depth_buffer r)
       \<and> length (color_buffer r1) = length (color_buffer r)
       \<and> window r1 = window r
       \<and> main_program r1 = main_program r \<and> depth_program r1 = depth_program r
       \<and> scenes w1 = scenes w" "calls w1 = calls w @ cs" "uses_only (main_program r) cs"
    by blast
  from Cons.IH [OF q] obtain ds where b:
    "width r2 = width r1 \<and> height r2 = height r1
       \<and> length (depth_buffer r2) = length (depth_buffer r1)
       \<and> length (color_buffer r2) = length (color_buffer r1)
       \<and> window r2 = window r1
       \<and> main_program r2 = main_program r1 \<and> depth_program r2 = depth_program r1
       \<and> scenes w2 = scenes w1" "calls w2 = calls w1 @ ds" "uses_only (main_program r1) ds"
    by blast
  have "calls w2 = calls w @ cs @ ds" using a(2) b(2) by simp
  moreover have "uses_only (main_program r) (cs @ ds)"
    using a(1,3) b(3) by (simp add: uses_only_append)
  ultimately have "\<exists>cs. calls w2 = calls w @ cs \<and> uses_only (main_program r) cs" by blast
  with a(1) b(1) show ?case by simp
qed



section \<open>The example values, evaluated\<close>

lemmas example_defs =
  example_renderer_def example_world_def example_camera_def example_platform_def
  scene_A_def scene_B_def empty_scene_def quad_def triangle_def depth_out_def rgb_out_def
  process_start_def closing_world_def

lemmas model_defs =
  render_def render_depth_map_def render_objects_def set_scene_def build_def bind_object_def
  render_objects_loop.simps depth_rows.simps depth_cols.simps rgb_rows.simps rgb_cols.simps
  depth_assign_def rgb_assign_def fetch_def store_def offset2_def offset3_def overwrite_def
  mutable_unchecked_def int_mul_def INT_MIN_def INT_MAX_def
  issue_Cons issue_Nil call_def Let_def

text \<open>
  The two render calls run on the example: the readback rows [10, 20] and [30, 40]
  come out as [30, 40] and [10, 20], and likewise for the colour bytes.
\<close>

lemma example_depth_render:
  "\<exists>r1 w1. render_depth_map [10, 20, 30, 40] example_camera depth_out
             example_renderer example_world
           = Inr (r1, w1, \<lparr>shape = [2, 2], elems = [30, 40, 10, 20]\<rparr>)"
  by (simp add: example_defs model_defs)

lemma example_rgb_render:
  "\<exists>r1 w1. render [1, 2, 3, 4, 5, 6, 7, 8, 9, 10, 11, 12] example_camera rgb_out
             example_renderer example_world
           = Inr (r1, w1, \<lparr>shape = [2, 2, 3],
                           elems = [7, 8, 9, 10, 11, 12, 1, 2, 3, 4, 5, 6]\<rparr>)"
  by (simp add: example_defs model_defs)

lemma example_hypotheses:
  "window example_renderer \<notin> closing example_world"
  "length (depth_buffer example_renderer)
     = nat (width example_renderer * height example_renderer)"
  "length (color_buffer example_renderer)
     = nat (width example_renderer * height example_renderer * 3)"
  "shape depth_out = [nat (height example_renderer), nat (width example_renderer)]"
  "length (elems depth_out) = nat (height example_renderer) * nat (width example_renderer)"
  "shape rgb_out = [nat (height example_renderer), nat (width example_renderer), 3]"
  "length (elems rgb_out) = nat (height example_renderer) * nat (width example_renderer) * 3"
  by (simp_all add: example_defs)

text \<open>
  Claim C1 at the example renderer (2 by 2 pixels) with a readback of four depth
  values and of twelve colour bytes: the rows come out swapped.
\<close>

theorem output_is_vertical_flip_witness:
  "window example_renderer \<notin> closing example_world
   \<and> bound_to example_renderer example_world scene_B \<and> drawable scene_B
   \<and> length (depth_buffer example_renderer) = nat (2 * 2)
   \<and> length (color_buffer example_renderer) = nat (2 * 2 * 3)
   \<and> shape depth_out = [2, 2] \<and> shape rgb_out = [2, 2, 3]
   \<and> (\<exists>r1 w1 out.
         render_depth_map [10, 20, 30, 40] example_camera depth_out
             example_renderer example_world = Inr (r1, w1, out)
         \<and> depth_buffer r1 = [10, 20, 30, 40]
         \<and> (\<forall>h x. 0 \<le> h \<and> h < 2 \<and> 0 \<le> x \<and> x < 2 \<longrightarrow>
               elems out ! offset2 out h x = depth_buffer r1 ! nat ((2 - 1 - h) * 2 + x)))
   \<and> (\<exists>r1 w1 out.
         render [1, 2, 3, 4, 5, 6, 7, 8, 9, 10, 11, 12] example_camera rgb_out
             example_renderer example_world = Inr (r1, w1, out)
         \<and> color_buffer r1 = [1, 2, 3, 4, 5, 6, 7, 8, 9, 10, 11, 12]
         \<and> (\<forall>h x c. 0 \<le> h \<and> h < 2 \<and> 0 \<le> x \<and> x < 2 \<and> 0 \<le> c \<and> c < 3 \<longrightarrow>
               elems out ! offset3 out h x c
                 = ucast (color_buffer r1 ! nat (((2 - 1 - h) * 2 + x) * 3 + c))))"
proof -
  have o: "overwrite (depth_buffer example_renderer) [10, 20, 30, 40] = [10, 20, 30, 40]"
    "overwrite (color_buffer example_renderer) [1, 2, 3, 4, 5, 6, 7, 8, 9, 10, 11, 12]
       = [1, 2, 3, 4, 5, 6, 7, 8, 9, 10, 11, 12]"
    "width example_renderer = 2" "height example_renderer = 2"
    by (simp_all add: example_renderer_def overwrite_def)
  have hyps: "window example_renderer \<notin> closing example_world
     \<and> bound_to example_renderer example_world scene_B \<and> drawable scene_B
     \<and> length (depth_buffer example_renderer) = nat (2 * 2)
     \<and> length (color_buffer example_renderer) = nat (2 * 2 * 3)
     \<and> shape depth_out = [2, 2] \<and> shape rgb_out = [2, 2, 3]"
    using example_hypotheses(1) example_bound example_drawable
    by (simp add: example_renderer_def depth_out_def rgb_out_def)
  from output_is_vertical_flip [OF example_hypotheses(1) example_bound example_drawable
      example_hypotheses(2-7), of "[10, 20, 30, 40]" example_camera
      "[1, 2, 3, 4, 5, 6, 7, 8, 9, 10, 11, 12]"]
  have "(\<exists>r1 w1 out.
         render_depth_map [10, 20, 30, 40] example_camera depth_out
             example_renderer example_world = Inr (r1, w1, out)
         \<and> depth_buffer r1 = [10, 20, 30, 40]
         \<and> (\<forall>h x. 0 \<le> h \<and> h < 2 \<and> 0 \<le> x \<and> x < 2 \<longrightarrow>
               elems out ! offset2 out h x = depth_buffer r1 ! nat ((2 - 1 - h) * 2 + x)))
   \<and> (\<exists>r1 w1 out.
         render [1, 2, 3, 4, 5, 6, 7, 8, 9, 10, 11, 12] example_camera rgb_out
             example_renderer example_world = Inr (r1, w1, out)
         \<and> color_buffer r1 = [1, 2, 3, 4, 5, 6, 7, 8, 9, 10, 11, 12]
         \<and> (\<forall>h x c. 0 \<le> h \<and> h < 2 \<and> 0 \<le> x \<and> x < 2 \<and> 0 \<le> c \<and> c < 3 \<longrightarrow>
               elems out ! offset3 out h x c
                 = ucast (color_buffer r1 ! nat (((2 - 1 - h) * 2 + x) * 3 + c))))"
    unfolding o by blast
  with hyps show ?thesis by blast
qed

section \<open>Buffers and programs over the lifetime\<close>

lemma constructed:
  assumes "Renderer2 pf wd ht w0 = Inr (r, w) \<or> Renderer3 pf p wd ht w0 = Inr (r, w)"
  shows "\<exists>ri wi. initialize pf wd ht w0 = Inr (ri, wi)
           \<and> ((r = ri \<and> w = wi)
              \<or> (\<exists>sc. scenes wi p = Some sc
                    \<and> r = ri\<lparr>scene := Some p, vao := build sc (vao ri)\<rparr>
                    \<and> scenes w = scenes wi
                    \<and> calls w = calls wi @ [glfwMakeContextCurrent (window ri), vao_build p]))"
  using assms
proof
  assume "Renderer2 pf wd ht w0 = Inr (r, w)"
  then show ?thesis by (simp add: Renderer2_def)
next
  assume "Renderer3 pf p wd ht w0 = Inr (r, w)"
  then obtain ri wi where i: "initialize pf wd ht w0 = Inr (ri, wi)"
    and s: "set_scene p ri wi = Inr (r, w)"
    by (auto simp add: Renderer3_def split: sum.splits prod.splits)
  from set_scene_result [OF s] i show ?thesis by blast
qed

lemma constructed_sizes:
  assumes "Renderer2 pf wd ht w = Inr (r, w1) \<or> Renderer3 pf p wd ht w = Inr (r, w1)"
  shows "0 \<le> wd * ht \<and> width r = wd \<and> height r = ht
       \<and> int (length (depth_buffer r)) = wd * ht
       \<and> int (length (color_buffer r)) = wd * ht * 3"
proof -
  from constructed [OF assms] obtain r0 w0 where i: "initialize pf wd ht w = Inr (r0, w0)"
    and s: "r = r0 \<or> (\<exists>sc. r = r0\<lparr>scene := Some p, vao := build sc (vao r0)\<rparr>)"
    by blast
  from initialize_Inr [OF i] s show ?thesis by auto
qed

lemma sizes_kept:
  assumes "run ops (r, w1) = Inr (r2, w2)"
  shows "length (depth_buffer r2) = length (depth_buffer r)
       \<and> length (color_buffer r2) = length (color_buffer r)
       \<and> width r2 = width r \<and> height r2 = height r"
  using run_result [OF assms] by simp

text \<open>
  Claim C7. For a width and a height whose products \<open>width * height\<close> and
  \<open>width * height * 3\<close> are counts an \<open>int\<close> holds, on a platform where GLFW
  initialises, the allocator has room for the two buffers and the helper objects are
  constructed, each constructor returns a Renderer whose depth buffer has exactly
  \<open>width * height\<close> elements and whose colour buffer has exactly
  \<open>width * height * 3\<close> elements; and after any sequence of operations on it that
  returns, the two buffers have the same lengths and the stored width and height
  are those of the construction.
\<close>

theorem buffer_sizes_fixed:
  assumes "glfwInit_result pf" "0 \<le> wd * ht" "wd * ht * 3 \<le> INT_MAX"
    and "has_room pf (4 * nat (wd * ht))" "has_room pf (nat (wd * ht * 3))"
    and "new_VertexArrayObject_throws pf = None" "new_Depth_throws pf = None"
      "new_Main_throws pf = None"
  shows "(\<exists>r w1. Renderer2 pf wd ht w = Inr (r, w1)
            \<and> int (length (depth_buffer r)) = wd * ht
            \<and> int (length (color_buffer r)) = wd * ht * 3
            \<and> width r = wd \<and> height r = ht
            \<and> (\<forall>ops r2 w2. run ops (r, w1) = Inr (r2, w2) \<longrightarrow>
                  int (length (depth_buffer r2)) = wd * ht
                  \<and> int (length (color_buffer r2)) = wd * ht * 3
                  \<and> width r2 = wd \<and> height r2 = ht))
       \<and> (\<forall>sc. scenes w p = Some sc \<longrightarrow>
            (\<exists>r w1. Renderer3 pf p wd ht w = Inr (r, w1)
               \<and> int (length (depth_buffer r)) = wd * ht
               \<and> int (length (color_buffer r)) = wd * ht * 3
               \<and> width r = wd \<and> height r = ht
               \<and> (\<forall>ops r2 w2. run ops (r, w1) = Inr (r2, w2) \<longrightarrow>
                     int (length (depth_buffer r2)) = wd * ht
                     \<and> int (length (color_buffer r2)) = wd * ht * 3
                     \<and> width r2 = wd \<and> height r2 = ht)))"
proof -
  from initialize_total [OF assms, of w] obtain r0 w0 where
    i: "initialize pf wd ht w = Inr (r0, w0)" by blast
  have kept: "int (length (depth_buffer r2)) = wd * ht
                  \<and> int (length (color_buffer r2)) = wd * ht * 3
                  \<and> width r2 = wd \<and> height r2 = ht"
    if c: "Renderer2 pf wd ht w = Inr (r, w1) \<or> Renderer3 pf p wd ht w = Inr (r, w1)"
      and e: "run ops (r, w1) = Inr (r2, w2)" for r w1 ops r2 w2
    using constructed_sizes [OF c] sizes_kept [OF e] by simp
  have two: "Renderer2 pf wd ht w = Inr (r0, w0)"
    using i by (simp add: Renderer2_def)
  have p2: "\<exists>r w1. Renderer2 pf wd ht w = Inr (r, w1)
            \<and> int (length (depth_buffer r)) = wd * ht
            \<and> int (length (color_buffer r)) = wd * ht * 3
            \<and> width r = wd \<and> height r = ht
            \<and> (\<forall>ops r2 w2. run ops (r, w1) = Inr (r2, w2) \<longrightarrow>
                  int (length (depth_buffer r2)) = wd * ht
                  \<and> int (length (color_buffer r2)) = wd * ht * 3
                  \<and> width r2 = wd \<and> height r2 = ht)"
    using two constructed_sizes [OF disjI1 [OF two]] kept [OF disjI1 [OF two]] by blast
  have p3: "\<exists>r w1. Renderer3 pf p wd ht w = Inr (r, w1)
               \<and> int (length (depth_buffer r)) = wd * ht
               \<and> int (length (color_buffer r)) = wd * ht * 3
               \<and> width r = wd \<and> height r = ht
               \<and> (\<forall>ops r2 w2. run ops (r, w1) = Inr (r2, w2) \<longrightarrow>
                     int (length (depth_buffer r2)) = wd * ht
                     \<and> int (length (color_buffer r2)) = wd * ht * 3
                     \<and> width r2 = wd \<and> height r2 = ht)"
    if sc: "scenes w p = Some sc" for sc
  proof -
    from initialize_Inr [OF i] sc have "scenes w0 p = Some sc" by simp
    from set_scene_ok [OF this, of r0] obtain w1 where
      "set_scene p r0 w0 = Inr (r0\<lparr>scene := Some p, vao := build sc (vao r0)\<rparr>, w1)"
      by blast
    with i have three: "Renderer3 pf p wd ht w
        = Inr (r0\<lparr>scene := Some p, vao := build sc (vao r0)\<rparr>, w1)"
      by (simp add: Renderer3_def)
    show ?thesis
      using three constructed_sizes [OF disjI2 [OF three]] kept [OF disjI2 [OF three]]
      by blast
  qed
  from p2 p3 show ?thesis by blast
qed

text \<open>
  Claim C7 at the example platform with width 2 and height 2: each constructor
  returns a renderer with 4 depth elements and 12 colour bytes, and a new scene, a
  depth render and a colour render leave these sizes as they are.
\<close>

theorem buffer_sizes_fixed_witness:
  "glfwInit_result example_platform \<and> 0 \<le> 2 * (2::int) \<and> 2 * 2 * 3 \<le> INT_MAX
   \<and> has_room example_platform (4 * nat (2 * 2)) \<and> has_room example_platform (nat (2 * 2 * 3))
   \<and> scenes process_start 2 = Some scene_B
   \<and> (\<exists>r w1 r2 w2.
         Renderer2 example_platform 2 2 process_start = Inr (r, w1)
         \<and> int (length (depth_buffer r)) = 4 \<and> int (length (color_buffer r)) = 12
         \<and> run [Set_scene 1,
                 Render_depth_map [10, 20, 30, 40] example_camera depth_out,
                 Render [1, 2, 3] example_camera rgb_out] (r, w1) = Inr (r2, w2)
         \<and> int (length (depth_buffer r2)) = 4 \<and> int (length (color_buffer r2)) = 12
         \<and> width r2 = 2 \<and> height r2 = 2)
   \<and> (\<exists>r w1 r2 w2.
         Renderer3 example_platform 2 2 2 process_start = Inr (r, w1)
         \<and> int (length (depth_buffer r)) = 4 \<and> int (length (color_buffer r)) = 12
         \<and> run [Render_depth_map [10, 20, 30, 40] example_camera depth_out,
                 Set_scene 1] (r, w1) = Inr (r2, w2)
         \<and> int (length (depth_buffer r2)) = 4 \<and> int (length (color_buffer r2)) = 12
         \<and> width r2 = 2 \<and> height r2 = 2)"
proof -
  have h: "glfwInit_result example_platform" "0 \<le> 2 * (2::int)" "2 * 2 * 3 \<le> INT_MAX"
    "has_room example_platform (4 * nat (2 * 2))" "has_room example_platform (nat (2 * 2 * 3))"
    "new_VertexArrayObject_throws example_platform = None"
    "new_Depth_throws example_platform = None" "new_Main_throws example_platform = None"
    by (simp_all add: example_platform_def INT_MAX_def)
  have sb: "scenes process_start 2 = Some scene_B" by (simp add: process_start_def)
  note t = buffer_sizes_fixed [OF h, of process_start 2]
  from t obtain r w1 where two: "Renderer2 example_platform 2 2 process_start = Inr (r, w1)"
    "int (length (depth_buffer r)) = 2 * 2" "int (length (color_buffer r)) = 2 * 2 * 3"
    and k2: "\<And>ops r2 w2. run ops (r, w1) = Inr (r2, w2) \<Longrightarrow>
                  int (length (depth_buffer r2)) = 2 * 2
                  \<and> int (length (color_buffer r2)) = 2 * 2 * 3
                  \<and> width r2 = 2 \<and> height r2 = 2"
    by blast
  have "\<exists>ra wa r2 w2. Renderer2 example_platform 2 2 process_start = Inr (ra, wa)
      \<and> run [Set_scene 1,
                 Render_depth_map [10, 20, 30, 40] example_camera depth_out,
                 Render [1, 2, 3] example_camera rgb_out] (ra, wa) = Inr (r2, w2)"
    by (simp add: Renderer2_def initialize_def window_hints_def make_unique_array_def
        eval_nat_numeral example_defs model_defs)
  with two(1) obtain r2 w2 where e2: "run [Set_scene 1,
                 Render_depth_map [10, 20, 30, 40] example_camera depth_out,
                 Render [1, 2, 3] example_camera rgb_out] (r, w1) = Inr (r2, w2)"
    by auto
  from t sb obtain r' w1' where three:
    "Renderer3 example_platform 2 2 2 process_start = Inr (r', w1')"
    "int (length (depth_buffer r')) = 2 * 2" "int (length (color_buffer r')) = 2 * 2 * 3"
    and k3: "\<And>ops r2 w2. run ops (r', w1') = Inr (r2, w2) \<Longrightarrow>
                  int (length (depth_buffer r2)) = 2 * 2
                  \<and> int (length (color_buffer r2)) = 2 * 2 * 3
                  \<and> width r2 = 2 \<and> height r2 = 2"
    by blast
  from three(1) example_construction have eq: "r' = example_renderer" "w1' = example_world"
    by simp_all
  have "\<exists>r3 w3. run [Render_depth_map [10, 20, 30, 40] example_camera depth_out,
                 Set_scene 1] (example_renderer, example_world) = Inr (r3, w3)"
    by (simp add: example_defs model_defs)
  then obtain r3 w3 where e3: "run [Render_depth_map [10, 20, 30, 40] example_camera depth_out,
                 Set_scene 1] (r', w1') = Inr (r3, w3)"
    unfolding eq by blast
  have c2: "\<exists>r w1 r2 w2.
         Renderer2 example_platform 2 2 process_start = Inr (r, w1)
         \<and> int (length (depth_buffer r)) = 4 \<and> int (length (color_buffer r)) = 12
         \<and> run [Set_scene 1,
                 Render_depth_map [10, 20, 30, 40] example_camera depth_out,
                 Render [1, 2, 3] example_camera rgb_out] (r, w1) = Inr (r2, w2)
         \<and> int (length (depth_buffer r2)) = 4 \<and> int (length (color_buffer r2)) = 12
         \<and> width r2 = 2 \<and> height r2 = 2"
    using two e2 k2 [OF e2] by (intro exI [of _ r] exI [of _ w1] exI [of _ r2] exI [of _ w2]) simp
  have c3: "\<exists>r w1 r2 w2.
         Renderer3 example_platform 2 2 2 process_start = Inr (r, w1)
         \<and> int (length (depth_buffer r)) = 4 \<and> int (length (color_buffer r)) = 12
         \<and> run [Render_depth_map [10, 20, 30, 40] example_camera depth_out,
                 Set_scene 1] (r, w1) = Inr (r2, w2)
         \<and> int (length (depth_buffer r2)) = 4 \<and> int (length (color_buffer r2)) = 12
         \<and> width r2 = 2 \<and> height r2 = 2"
    using three e3 k3 [OF e3]
    by (intro exI [of _ r'] exI [of _ w1'] exI [of _ r3] exI [of _ w3]) simp
  from h(1-5) sb c2 c3 show ?thesis by blast
qed



section \<open>Changing the scene\<close>

lemma bound_after_perform:
  assumes "perform op (r, w) = Inr (r1, w1)"
    and "sets_scene op \<or> (\<exists>sc. bound_to r w sc)"
  shows "\<exists>sc. bound_to r1 w1 sc"
proof (cases "sets_scene op")
  case True
  with perform_result [OF assms(1)] obtain p sc where
    "scene r1 = Some p" "scenes w p = Some sc" "slots (vao r1) = objects sc"
    "scenes w1 = scenes w" by auto
  then have "bound_to r1 w1 sc" by (simp add: bound_to_def)
  then show ?thesis by blast
next
  case False
  with assms(2) obtain sc where b: "bound_to r w sc" by blast
  from False perform_result [OF assms(1)] have
    "scene r1 = scene r" "vao r1 = vao r" "scenes w1 = scenes w" by auto
  with b have "bound_to r1 w1 sc" by (simp add: bound_to_def split: option.splits)
  then show ?thesis by blast
qed

text \<open>
  Claim C6. With scene pointers \<open>a\<close> and \<open>b\<close> leading to scenes \<open>A\<close> and \<open>B\<close>:
  \<open>set_scene b\<close> returns, the stored pointer is \<open>b\<close>, and the geometry binding has
  exactly the slots of \<open>B\<close>'s objects, whatever it held before; after
  \<open>set_scene a; set_scene b\<close> a \<open>render\<close> call binds and draws the objects of \<open>B\<close> and
  nothing else; and every operation that returns, when it sets a scene or starts from
  a renderer bound to a scene, leaves the renderer bound to a scene.
\<close>

theorem set_scene_rebinds:
  assumes "scenes w a = Some A" "scenes w b = Some B"
  shows "(\<exists>r1 w1. set_scene b r w = Inr (r1, w1)
            \<and> scene r1 = Some b \<and> slots (vao r1) = objects B \<and> bound_to r1 w1 B)
       \<and> (drawable B \<and> window r \<notin> closing w
            \<and> length (color_buffer r) = nat (width r * height r * 3)
            \<and> shape np = [nat (height r), nat (width r), 3]
            \<and> length (elems np) = nat (height r) * nat (width r) * 3
          \<longrightarrow> (\<exists>r2 w2 r3 w3 out.
                 run [Set_scene a, Set_scene b] (r, w) = Inr (r2, w2)
                 \<and> scene r2 = Some b \<and> slots (vao r2) = objects B
                 \<and> render pixels camera np r2 w2 = Inr (r3, w3, out)
                 \<and> issued w2 w3 = color_pass_calls r2 camera (objects B)
                 \<and> bound_to r3 w3 B))
       \<and> (\<forall>op r1 w1. perform op (r, w) = Inr (r1, w1)
             \<and> (sets_scene op \<or> (\<exists>sc. bound_to r w sc))
           \<longrightarrow> (\<exists>sc. bound_to r1 w1 sc))"
proof -
  have p1: "\<exists>r1 w1. set_scene b r w = Inr (r1, w1)
            \<and> scene r1 = Some b \<and> slots (vao r1) = objects B \<and> bound_to r1 w1 B"
    using set_scene_ok [OF assms(2), of r] assms(2)
    by (auto simp add: bound_to_def build_def)
  have p2: "\<exists>r2 w2 r3 w3 out.
                 run [Set_scene a, Set_scene b] (r, w) = Inr (r2, w2)
                 \<and> scene r2 = Some b \<and> slots (vao r2) = objects B
                 \<and> render pixels camera np r2 w2 = Inr (r3, w3, out)
                 \<and> issued w2 w3 = color_pass_calls r2 camera (objects B)
                 \<and> bound_to r3 w3 B"
    if h: "drawable B" "window r \<notin> closing w"
      "length (color_buffer r) = nat (width r * height r * 3)"
      "shape np = [nat (height r), nat (width r), 3]"
      "length (elems np) = nat (height r) * nat (width r) * 3"
  proof -
    define ra where "ra = r\<lparr>scene := Some a, vao := build A (vao r)\<rparr>"
    from set_scene_ok [OF assms(1), of r] obtain wa where
      wa: "set_scene a r w = Inr (ra, wa)" "scenes wa = scenes w" "closing wa = closing w"
      unfolding ra_def by blast
    define rb where "rb = ra\<lparr>scene := Some b, vao := build B (vao ra)\<rparr>"
    from assms(2) wa(2) have "scenes wa b = Some B" by simp
    from set_scene_ok [OF this, of ra] obtain wb where
      wb: "set_scene b ra wa = Inr (rb, wb)" "scenes wb = scenes wa" "closing wb = closing wa"
      unfolding rb_def by blast
    have run: "run [Set_scene a, Set_scene b] (r, w) = Inr (rb, wb)"
      by (simp add: wa(1) wb(1))
    have f: "scene rb = Some b" "slots (vao rb) = objects B" "window rb = window r"
      "width rb = width r" "height rb = height r" "color_buffer rb = color_buffer r"
      by (simp_all add: rb_def ra_def build_def)
    have bd: "bound_to rb wb B"
      using assms(2) wa(2) wb(2) f(1,2) by (simp add: bound_to_def)
    have nc: "window rb \<notin> closing wb" using h(2) wa(3) wb(3) f(3) by simp
    have sz: "length (color_buffer rb) = nat (width rb * height rb * 3)"
      "shape np = [nat (height rb), nat (width rb), 3]"
      "length (elems np) = nat (height rb) * nat (width rb) * 3"
      using h(3-5) f(4-6) by simp_all
    from render_ok [OF nc bd h(1) sz, of pixels camera] obtain w3 out where
      r3: "render pixels camera np rb wb
             = Inr (rb\<lparr>color_buffer := overwrite (color_buffer rb) pixels\<rparr>, w3, out)"
      "calls w3 = calls wb @ color_pass_calls rb camera (objects B)"
      "scenes w3 = scenes wb" by blast
    have "bound_to (rb\<lparr>color_buffer := overwrite (color_buffer rb) pixels\<rparr>) w3 B"
      using bd r3(3) by (simp add: bound_to_def split: option.splits)
    moreover have "issued wb w3 = color_pass_calls rb camera (objects B)"
      by (simp add: issued_def r3(2))
    ultimately show ?thesis using run f(1,2) r3(1) by blast
  qed
  from p1 p2 bound_after_perform show ?thesis by blast
qed

text \<open>
  Claim C6 at the example: scene A (a triangle) and then scene B (a quad and a
  triangle) are set; the render call binds slot 0 and slot 1 and draws 6 and 3
  vertices, the objects of B.
\<close>

theorem set_scene_rebinds_witness:
  "scenes example_world 1 = Some scene_A \<and> scenes example_world 2 = Some scene_B
   \<and> drawable scene_B \<and> window example_renderer \<notin> closing example_world
   \<and> (\<exists>r2 w2 r3 w3 out.
         run [Set_scene 1, Set_scene 2] (example_renderer, example_world) = Inr (r2, w2)
         \<and> scene r2 = Some 2 \<and> slots (vao r2) = [quad, triangle]
         \<and> render [1, 2, 3] example_camera rgb_out r2 w2 = Inr (r3, w3, out)
         \<and> issued w2 w3 = color_pass_calls r2 example_camera [quad, triangle]
         \<and> filter (\<lambda>c. \<exists>n. c = glDrawArrays GL_TRIANGLES 0 n) (issued w2 w3)
             = [glDrawArrays GL_TRIANGLES 0 6, glDrawArrays GL_TRIANGLES 0 3])
   \<and> (\<exists>r1 w1.
         perform (Render_objects example_camera) (example_renderer, example_world)
           = Inr (r1, w1)
         \<and> bound_to example_renderer example_world scene_B
         \<and> (\<exists>sc. bound_to r1 w1 sc))"
proof -
  have "\<exists>r1 w1. perform (Render_objects example_camera) (example_renderer, example_world)
           = Inr (r1, w1)"
    by (simp add: example_defs model_defs)
  then obtain r1 w1 where e:
    "perform (Render_objects example_camera) (example_renderer, example_world) = Inr (r1, w1)"
    by blast
  have a: "scenes example_world 1 = Some scene_A" "scenes example_world 2 = Some scene_B"
    by (simp_all add: example_world_def)
  have b: "drawable scene_B \<and> window example_renderer \<notin> closing example_world
     \<and> length (color_buffer example_renderer)
         = nat (width example_renderer * height example_renderer * 3)
     \<and> shape rgb_out = [nat (height example_renderer), nat (width example_renderer), 3]
     \<and> length (elems rgb_out)
         = nat (height example_renderer) * nat (width example_renderer) * 3"
    using example_drawable example_hypotheses by simp
  have d: "filter (\<lambda>c. \<exists>n. c = glDrawArrays GL_TRIANGLES 0 n)
             (color_pass_calls r2 example_camera [quad, triangle])
           = [glDrawArrays GL_TRIANGLES 0 6, glDrawArrays GL_TRIANGLES 0 3]" for r2
    by (simp add: color_pass_calls_def color_pass_setup_def prologue_def spec_scene_calls_def
        spec_object_calls_def restore_defaults_def quad_def triangle_def upt_rec)
  note t = set_scene_rebinds [OF a, of example_renderer rgb_out "[1, 2, 3]" example_camera]
  from t b obtain r2 w2 r3 w3 out where f:
    "run [Set_scene 1, Set_scene 2] (example_renderer, example_world) = Inr (r2, w2)"
    "scene r2 = Some 2" "slots (vao r2) = objects scene_B"
    "render [1, 2, 3] example_camera rgb_out r2 w2 = Inr (r3, w3, out)"
    "issued w2 w3 = color_pass_calls r2 example_camera (objects scene_B)"
    by blast
  from t e example_bound have g: "\<exists>sc. bound_to r1 w1 sc" by blast
  have "\<exists>r2 w2 r3 w3 out.
         run [Set_scene 1, Set_scene 2] (example_renderer, example_world) = Inr (r2, w2)
         \<and> scene r2 = Some 2 \<and> slots (vao r2) = [quad, triangle]
         \<and> render [1, 2, 3] example_camera rgb_out r2 w2 = Inr (r3, w3, out)
         \<and> issued w2 w3 = color_pass_calls r2 example_camera [quad, triangle]
         \<and> filter (\<lambda>c. \<exists>n. c = glDrawArrays GL_TRIANGLES 0 n) (issued w2 w3)
             = [glDrawArrays GL_TRIANGLES 0 6, glDrawArrays GL_TRIANGLES 0 3]"
    using f d by (auto simp add: scene_B_def)
  with a b e g example_bound show ?thesis by blast
qed

end
